theory Spec2Isabelle
  imports Main
begin

section \<open>The action node of \<open>bt_action_node.hpp\<close>\<close>

text \<open>
  \<open>RosActionNode<ActionT>\<close> adapts a ROS 2 action client to the tick contract of a
  behaviour tree.  The embedding below follows the header member by member.  The class is
  a template over the action type; its goal, feedback and result messages are the type
  variables \<open>'g\<close>, \<open>'f\<close> and \<open>'r\<close>.

  What the header takes from the libraries it includes (BehaviorTree.CPP 4, rclcpp,
  rclcpp_action) is visible here only as far as the header uses it: the enumerations, the
  node status kept by the base class, and the calls made into the transport.  Calls into the
  transport are taken to return normally; each call is recorded, with its arguments, in the
  field \<open>calls\<close>, and what the transport answers is an input of the step that asks.
\<close>

subsection \<open>Enumerations\<close>

text \<open>\<open>BT::NodeStatus\<close> of \<open>behaviortree_cpp/basic_types.h\<close> (version 4).\<close>

datatype NodeStatus = IDLE | RUNNING | SUCCESS | FAILURE | SKIPPED

text \<open>\<open>enum ActionNodeErrorCode\<close>, lines 26 to 34.\<close>

datatype ActionNodeErrorCode =
    SERVER_UNREACHABLE
  | SEND_GOAL_TIMEOUT
  | GOAL_REJECTED_BY_SERVER
  | ACTION_ABORTED
  | ACTION_CANCELLED
  | INVALID_GOAL

text \<open>\<open>rclcpp_action::ResultCode\<close>; \<open>UNKNOWN\<close> is its zero value.\<close>

datatype ResultCode = UNKNOWN | SUCCEEDED | CANCELED | ABORTED

text \<open>
  \<open>ClientGoalHandle<ActionT>::WrappedResult\<close>.  The payload is a shared pointer, so it can
  be null; \<open>result_ = {}\<close> stores \<open>empty_result\<close>.
\<close>

record 'r WrappedResult =
  goal_id :: nat
  code :: ResultCode
  payload :: "'r option"

definition empty_result :: "'r WrappedResult" where
  "empty_result = \<lparr>goal_id = 0, code = UNKNOWN, payload = None\<rparr>"

subsection \<open>Exceptions\<close>

text \<open>
  Every \<open>throw\<close> of the header is a constructor: \<open>BT::RuntimeError\<close> (line 232),
  \<open>std::logic_error\<close> (lines 180, 195, 217, 270, 302) and \<open>std::runtime_error\<close>
  (line 364), each with its message.  Three more stand for what the header does not guard
  against: \<open>NullClient\<close> for a call through the null \<open>action_client_\<close>,
  \<open>InvalidFuture\<close> for waiting on a default-constructed \<open>future_goal_handle_\<close>, and
  \<open>UndefinedConversion\<close> for reading a duration whose nanoseconds do not fit
  \<open>int64_t\<close>.
\<close>

datatype exn =
    BtRuntimeError string
  | LogicError string
  | StdRuntimeError string
  | NullClient
  | InvalidFuture
  | UndefinedConversion

subsection \<open>The user's virtual methods\<close>

text \<open>
  \<open>setGoal\<close> returns \<open>None\<close> where the method returns false, and the goal it filled in
  otherwise.  \<open>onFeeback\<close> and \<open>onFailure\<close> have the defaults of lines 115 to 126.
\<close>

record ('g, 'f, 'r) user =
  setGoal :: "'g option"
  onResultReceived :: "'r WrappedResult \<Rightarrow> NodeStatus"
  onFeeback :: "'f \<Rightarrow> NodeStatus"
  onFailure :: "ActionNodeErrorCode \<Rightarrow> NodeStatus"

definition default_onFeeback :: "'f \<Rightarrow> NodeStatus" where
  "default_onFeeback feedback = RUNNING"

definition default_onFailure :: "ActionNodeErrorCode \<Rightarrow> NodeStatus" where
  "default_onFailure error = FAILURE"

subsection \<open>Observable calls\<close>

text \<open>
  The calls the node makes on the transport, on the user's methods and on the tree, in
  the order it makes them.  A client is identified by the server name it was created for,
  a goal handle by a number.  \<open>WaitForActionServer t found\<close> records the timeout in
  milliseconds and the answer.  Logging is not recorded.
\<close>

datatype ('g, 'f, 'r) call =
    CreateClient string
  | WaitForActionServer int bool
  | CallSetGoal
  | CallOnFailure ActionNodeErrorCode
  | CallOnResultReceived "'r WrappedResult"
  | CallOnFeeback 'f
  | AsyncSendGoal string 'g
  | AsyncCancelGoal string "nat option"
  | EmitWakeUpSignal

subsection \<open>The node\<close>

text \<open>
  The data members of lines 133 to 149, with \<open>status\<close> for the status the base class
  keeps (\<open>status()\<close>, \<open>setStatus\<close>).  A member \<open>x_\<close> of the class is the field
  \<open>x\<close>, since a name cannot end in an underscore here, and the payload of a
  \<open>WrappedResult\<close> is \<open>payload\<close>.  \<open>server_timeout_\<close> is in milliseconds,
  \<open>time_goal_sent_\<close> in nanoseconds.  \<open>future_goal_handle_\<close> is true while the future
  refers to a submission and false when default-constructed.  \<open>node_\<close> and
  \<open>callback_group_\<close> are handles into the transport that no claim reads.
\<close>

record ('g, 'f, 'r) RosActionNode =
  status :: NodeStatus
  prev_server_name :: string
  server_name_may_change :: bool
  server_timeout :: int
  action_client :: "string option"
  future_goal_handle :: bool
  goal_handle :: "nat option"
  time_goal_sent :: int
  on_feedback_state_change :: NodeStatus
  goal_received :: bool
  result :: "'r WrappedResult"
  calls :: "('g, 'f, 'r) call list"

definition record_call ::
  "('g, 'f, 'r) call \<Rightarrow> ('g, 'f, 'r) RosActionNode \<Rightarrow> ('g, 'f, 'r) RosActionNode" where
  "record_call c n = n\<lparr>calls := calls n @ [c]\<rparr>"

subsection \<open>What the transport delivers\<close>

text \<open>
  Spinning \<open>node_\<close> runs the callbacks registered at lines 295 to 313 for the messages
  that have arrived.  The goal response callback of line 315 only logs: the
  \<open>goal_handle_\<close> it assigns is a local variable.
\<close>

datatype ('f, 'r) event = FeedbackMsg 'f | ResultMsg "'r WrappedResult"

text \<open>
  The inputs of one \<open>tick()\<close>:
  \<^item> \<open>port_server_name\<close>: what \<open>getInput("server_name", server_name)\<close> reads, \<open>None\<close>
    when the lookup fails and \<open>server_name\<close> stays empty;
  \<^item> \<open>server_found\<close>: the answer of \<open>wait_for_action_server\<close>;
  \<^item> \<open>spun\<close>: the callbacks run on \<open>node_\<close> since the tick before, up to the return of
    \<open>spin_some\<close> (the node is shared, and whoever spins it runs them);
  \<^item> \<open>spun_accept\<close> and \<open>goal_response\<close>: the callbacks run inside
    \<open>spin_until_future_complete\<close> on the goal-handle future and what it finds: \<open>None\<close>
    while the future is not complete, \<open>Some None\<close> for a null handle (the goal was rejected),
    \<open>Some (Some h)\<close> for the handle of an accepted goal;
  \<^item> \<open>spun_cancel\<close>: the callbacks run while \<open>cancelGoal\<close> waits for the answer;
  \<^item> \<open>now\<close>: \<open>node_->now()\<close> in nanoseconds.
\<close>

record ('f, 'r) tick_input =
  port_server_name :: "string option"
  server_found :: bool
  spun :: "('f, 'r) event list"
  spun_accept :: "('f, 'r) event list"
  goal_response :: "nat option option"
  spun_cancel :: "('f, 'r) event list"
  now :: int

subsection \<open>createClient, lines 227 to 246\<close>

definition createClient ::
  "string \<Rightarrow> bool \<Rightarrow> ('g, 'f, 'r) RosActionNode \<Rightarrow> (exn + bool) \<times> ('g, 'f, 'r) RosActionNode" where
  "createClient server_name found n =
     (if server_name = [] then (Inl (BtRuntimeError ''server_name is empty''), n)
      else (Inr found,
            n\<lparr>action_client := Some server_name,
              prev_server_name := server_name,
              calls := calls n @ [CreateClient server_name,
                                  WaitForActionServer (server_timeout n) found]\<rparr>))"

subsection \<open>The callbacks of lines 295 to 313\<close>

definition feedback_callback ::
  "('g, 'f, 'r) user \<Rightarrow> 'f \<Rightarrow> ('g, 'f, 'r) RosActionNode \<Rightarrow> exn option \<times> ('g, 'f, 'r) RosActionNode" where
  "feedback_callback u feedback n =
     (let n1 = n\<lparr>on_feedback_state_change := onFeeback u feedback,
                  calls := calls n @ [CallOnFeeback feedback]\<rparr>
      in if on_feedback_state_change n1 = IDLE
         then (Some (LogicError ''onFeeback must not retunr IDLE''), n1)
         else (None, record_call EmitWakeUpSignal n1))"

definition result_callback ::
  "'r WrappedResult \<Rightarrow> ('g, 'f, 'r) RosActionNode \<Rightarrow> exn option \<times> ('g, 'f, 'r) RosActionNode" where
  "result_callback res n = (None, record_call EmitWakeUpSignal (n\<lparr>result := res\<rparr>))"

fun run_callback ::
  "('g, 'f, 'r) user \<Rightarrow> ('f, 'r) event \<Rightarrow> ('g, 'f, 'r) RosActionNode
     \<Rightarrow> exn option \<times> ('g, 'f, 'r) RosActionNode" where
  "run_callback u (FeedbackMsg feedback) n = feedback_callback u feedback n"
| "run_callback u (ResultMsg res) n = result_callback res n"

text \<open>A spin runs the callbacks in order and stops at the first that throws.\<close>

fun deliver ::
  "('g, 'f, 'r) user \<Rightarrow> ('f, 'r) event list \<Rightarrow> ('g, 'f, 'r) RosActionNode
     \<Rightarrow> exn option \<times> ('g, 'f, 'r) RosActionNode" where
  "deliver u [] n = (None, n)"
| "deliver u (e # es) n =
     (case run_callback u e n of
        (Some x, n') \<Rightarrow> (Some x, n')
      | (None, n') \<Rightarrow> deliver u es n')"

subsection \<open>cancelGoal, lines 403 to 414\<close>

text \<open>
  The handle is passed as it is.  Whether the answer comes within \<open>server_timeout_\<close>
  only decides a log line.
\<close>

definition cancelGoal ::
  "('g, 'f, 'r) user \<Rightarrow> ('f, 'r) event list \<Rightarrow> ('g, 'f, 'r) RosActionNode
     \<Rightarrow> exn option \<times> ('g, 'f, 'r) RosActionNode" where
  "cancelGoal u evs n =
     (case action_client n of
        None \<Rightarrow> (Some NullClient, n)
      | Some client \<Rightarrow>
          deliver u evs (record_call (AsyncCancelGoal client (goal_handle n)) n))"

subsection \<open>halt, lines 394 to 401\<close>

definition halt ::
  "('g, 'f, 'r) user \<Rightarrow> ('f, 'r) event list \<Rightarrow> ('g, 'f, 'r) RosActionNode
     \<Rightarrow> exn option \<times> ('g, 'f, 'r) RosActionNode" where
  "halt u evs n = (if status n = RUNNING then cancelGoal u evs n else (None, n))"

subsection \<open>tick, lines 249 to 392\<close>

text \<open>The lambda of lines 266 to 273.\<close>

definition CheckStatus :: "NodeStatus \<Rightarrow> exn + NodeStatus" where
  "CheckStatus s =
     (if s \<noteq> SUCCESS \<and> s \<noteq> FAILURE
      then Inl (LogicError ''RosActionNode: the callback must return either SUCCESS of FAILURE'')
      else Inr s)"

text \<open>Lines 255 to 263.  The return value of \<open>createClient\<close> is dropped.\<close>

definition bind_client ::
  "('f, 'r) tick_input \<Rightarrow> ('g, 'f, 'r) RosActionNode \<Rightarrow> exn option \<times> ('g, 'f, 'r) RosActionNode" where
  "bind_client i n =
     (if action_client n = None \<or> (status n = IDLE \<and> server_name_may_change n) then
        (let server_name = (case port_server_name i of None \<Rightarrow> [] | Some s \<Rightarrow> s)
         in if prev_server_name n \<noteq> server_name then
              (case createClient server_name (server_found i) n of
                 (Inl e, n') \<Rightarrow> (Some e, n')
               | (Inr found, n') \<Rightarrow> (None, n'))
            else (None, n))
      else (None, n))"

text \<open>Lines 276 to 332, the first tick of an activation.\<close>

definition send_goal ::
  "('g, 'f, 'r) user \<Rightarrow> ('f, 'r) tick_input \<Rightarrow> ('g, 'f, 'r) RosActionNode
     \<Rightarrow> (exn + NodeStatus) \<times> ('g, 'f, 'r) RosActionNode" where
  "send_goal u i n =
     (let n1 = record_call CallSetGoal
                 (n\<lparr>status := RUNNING,
                    goal_received := False,
                    future_goal_handle := False,
                    on_feedback_state_change := RUNNING,
                    result := empty_result\<rparr>)
      in case setGoal u of
           None \<Rightarrow> (CheckStatus (onFailure u INVALID_GOAL),
                    record_call (CallOnFailure INVALID_GOAL) n1)
         | Some goal \<Rightarrow>
             (case action_client n1 of
                None \<Rightarrow> (Inl NullClient, n1)
              | Some client \<Rightarrow>
                  (Inr RUNNING,
                   (record_call (AsyncSendGoal client goal) n1)
                     \<lparr>future_goal_handle := True, time_goal_sent := now i\<rparr>)))"

text \<open>
  Line 342 turns \<open>server_timeout_\<close> into a duration through \<open>double\<close>:
  \<open>Duration::from_seconds(double(server_timeout_.count()) / 1000)\<close>, and \<open>from_seconds\<close>
  multiplies the seconds by \<open>1e9\<close> and converts the product to \<open>int64_t\<close>, which cuts
  the fraction off.  Each of the three \<open>double\<close> operations rounds to the nearest value
  with a 53-bit significand, ties to even.

  A \<open>double\<close> is the pair \<open>(m, e)\<close> of an integer significand and an exponent, for
  the value \<open>m * 2 ^ e\<close>.  \<open>nearest_double p q\<close> is the \<open>double\<close> nearest to the
  fraction \<open>p / q\<close>, for \<open>q\<close> positive: \<open>l\<close> is the position of the leading bit of
  the fraction, and the significand is the fraction scaled to 53 bits and rounded.  The
  values that occur here are far from the ends of the exponent range.
\<close>

definition round_half_even :: "int \<Rightarrow> int \<Rightarrow> int" where
  "round_half_even p q =
     (let d = p div q; r = p mod q
      in if 2 * r < q then d
         else if q < 2 * r then d + 1
         else if even d then d else d + 1)"

function bit_length :: "int \<Rightarrow> int" where
  "bit_length a = (if a \<le> 0 then 0 else 1 + bit_length (a div 2))"
  by pat_completeness auto
termination
  by (relation "measure nat") auto

declare bit_length.simps [simp del]

definition nearest_double :: "int \<Rightarrow> int \<Rightarrow> int \<times> int" where
  "nearest_double p q =
     (if p = 0 then (0, 0)
      else
        (let a = \<bar>p\<bar>;
             k = bit_length a - bit_length q;
             l = (if 0 \<le> k then (if q * 2 ^ nat k \<le> a then k else k - 1)
                  else (if q \<le> a * 2 ^ nat (- k) then k else k - 1));
             e = l - 52;
             m = (if 0 \<le> e then round_half_even a (q * 2 ^ nat e)
                  else round_half_even (a * 2 ^ nat (- e)) q)
         in (sgn p * m, e)))"

text \<open>The value of a \<open>double\<close> as a fraction.\<close>

definition as_fraction :: "int \<times> int \<Rightarrow> int \<times> int" where
  "as_fraction x =
     (case x of (m, e) \<Rightarrow> if 0 \<le> e then (m * 2 ^ nat e, 1) else (m, 2 ^ nat (- e)))"

text \<open>
  \<open>double(c)\<close> for a 64-bit count, and division and multiplication of a \<open>double\<close> by
  a whole number that is itself a \<open>double\<close> (1000 and \<open>1e9\<close> are).
\<close>

definition double_of_int64 :: "int \<Rightarrow> int \<times> int" where
  "double_of_int64 c = nearest_double c 1"

definition double_div :: "int \<times> int \<Rightarrow> int \<Rightarrow> int \<times> int" where
  "double_div x c = (case as_fraction x of (p, q) \<Rightarrow> nearest_double p (q * c))"

definition double_times :: "int \<times> int \<Rightarrow> int \<Rightarrow> int \<times> int" where
  "double_times x c = (case as_fraction x of (p, q) \<Rightarrow> nearest_double (p * c) q)"

text \<open>
  \<open>static_cast<int64_t>\<close> of a \<open>double\<close>: the fraction is cut off, towards zero.  Outside
  \<open>int64_t\<close> the conversion is undefined, and there is no value.
\<close>

definition int64_of_double :: "int \<times> int \<Rightarrow> int option" where
  "int64_of_double x =
     (case as_fraction x of
        (p, q) \<Rightarrow>
          (let v = sgn p * (\<bar>p\<bar> div q)
           in if - (2 ^ 63) \<le> v \<and> v < 2 ^ 63 then Some v else None))"

definition from_seconds :: "int \<times> int \<Rightarrow> int option" where
  "from_seconds seconds = int64_of_double (double_times seconds 1000000000)"

definition timeout :: "('g, 'f, 'r) RosActionNode \<Rightarrow> int option" where
  "timeout n = from_seconds (double_div (double_of_int64 (server_timeout n)) 1000)"

text \<open>
  Lines 339 to 367.  \<open>Some r\<close> is a return or a throw out of \<open>tick\<close>; \<open>None\<close> falls
  through to the checks on feedback and result.  The timeout of line 342 is read at line
  348 and nowhere else; where it has no value the model stops there.
\<close>

definition await_goal_response ::
  "('g, 'f, 'r) user \<Rightarrow> ('f, 'r) tick_input \<Rightarrow> ('g, 'f, 'r) RosActionNode
     \<Rightarrow> (exn + NodeStatus) option \<times> ('g, 'f, 'r) RosActionNode" where
  "await_goal_response u i n =
     (if \<not> future_goal_handle n then (Some (Inl InvalidFuture), n)
      else case deliver u (spun_accept i) n of
          (Some x, n1) \<Rightarrow> (Some (Inl x), n1)
        | (None, n1) \<Rightarrow>
            (case goal_response i of
               None \<Rightarrow>
                 (case timeout n1 of
                    None \<Rightarrow> (Some (Inl UndefinedConversion), n1)
                  | Some t \<Rightarrow>
                      if now i - time_goal_sent n1 > t
                      then (Some (CheckStatus (onFailure u SEND_GOAL_TIMEOUT)),
                            record_call (CallOnFailure SEND_GOAL_TIMEOUT) n1)
                      else (Some (Inr RUNNING), n1))
             | Some h \<Rightarrow>
                 (let n2 = n1\<lparr>goal_received := True,
                              goal_handle := h,
                              future_goal_handle := False\<rparr>
                  in if h = None
                     then (Some (Inl (StdRuntimeError ''Goal was rejected by the action server'')), n2)
                     else (None, n2))))"

text \<open>Lines 369 to 391.\<close>

definition check_feedback_and_result ::
  "('g, 'f, 'r) user \<Rightarrow> ('f, 'r) tick_input \<Rightarrow> ('g, 'f, 'r) RosActionNode
     \<Rightarrow> (exn + NodeStatus) \<times> ('g, 'f, 'r) RosActionNode" where
  "check_feedback_and_result u i n =
     (if on_feedback_state_change n \<noteq> RUNNING then
        (case cancelGoal u (spun_cancel i) n of
           (Some x, n') \<Rightarrow> (Inl x, n')
         | (None, n') \<Rightarrow> (Inr (on_feedback_state_change n'), n'))
      else if code (result n) \<noteq> UNKNOWN then
        (if code (result n) = ABORTED
         then (CheckStatus (onFailure u ACTION_ABORTED),
               record_call (CallOnFailure ACTION_ABORTED) n)
         else if code (result n) = CANCELED
         then (CheckStatus (onFailure u ACTION_CANCELLED),
               record_call (CallOnFailure ACTION_CANCELLED) n)
         else (CheckStatus (onResultReceived u (result n)),
               record_call (CallOnResultReceived (result n)) n))
      else (Inr RUNNING, n))"

text \<open>Lines 334 to 390.\<close>

definition poll_goal ::
  "('g, 'f, 'r) user \<Rightarrow> ('f, 'r) tick_input \<Rightarrow> ('g, 'f, 'r) RosActionNode
     \<Rightarrow> (exn + NodeStatus) \<times> ('g, 'f, 'r) RosActionNode" where
  "poll_goal u i n =
     (case deliver u (spun i) n of
        (Some x, n1) \<Rightarrow> (Inl x, n1)
      | (None, n1) \<Rightarrow>
          (if \<not> goal_received n1 then
             (case await_goal_response u i n1 of
                (Some r, n2) \<Rightarrow> (r, n2)
              | (None, n2) \<Rightarrow> check_feedback_and_result u i n2)
           else check_feedback_and_result u i n1))"

definition tick ::
  "('g, 'f, 'r) user \<Rightarrow> ('f, 'r) tick_input \<Rightarrow> ('g, 'f, 'r) RosActionNode
     \<Rightarrow> (exn + NodeStatus) \<times> ('g, 'f, 'r) RosActionNode" where
  "tick u i n =
     (case bind_client i n of
        (Some x, n0) \<Rightarrow> (Inl x, n0)
      | (None, n0) \<Rightarrow>
          if status n0 = IDLE then send_goal u i n0
          else if status n0 = RUNNING then poll_goal u i n0
          else (Inr RUNNING, n0))"

subsection \<open>The constructor, lines 158 to 225\<close>

text \<open>
  The arguments of the constructor and what it reads from the tree:
  \<^item> \<open>external_action_client\<close>: the client handed in, \<open>None\<close> for the default;
  \<^item> \<open>port_found\<close>: whether \<open>getInput<std::string>("server_name")\<close> has a value;
  \<^item> \<open>port_remap\<close>: the entry of \<open>config().input_ports\<close> for \<open>server_name\<close>;
  \<^item> \<open>is_blackboard_pointer\<close>: \<open>isBlackboardPointer\<close> of that entry;
  \<^item> \<open>default_server_name\<close> and \<open>params_server_timeout\<close>: the \<open>ActionNodeParams\<close>;
  \<^item> \<open>ctor_server_found\<close>: the answer of \<open>wait_for_action_server\<close>;
  \<^item> \<open>uninit_feedback_state\<close>, \<open>uninit_goal_received\<close>, \<open>uninit_result\<close>: the values of
    the members that no initialiser sets.
\<close>

record 'r ctor_input =
  external_action_client :: "string option"
  port_found :: bool
  port_remap :: "string option"
  is_blackboard_pointer :: bool
  default_server_name :: string
  params_server_timeout :: int
  ctor_server_found :: bool
  uninit_feedback_state :: NodeStatus
  uninit_goal_received :: bool
  uninit_result :: "'r WrappedResult"

definition members_init :: "'r ctor_input \<Rightarrow> ('g, 'f, 'r) RosActionNode" where
  "members_init a =
     \<lparr>status = IDLE,
      prev_server_name = [],
      server_name_may_change = False,
      server_timeout = params_server_timeout a,
      action_client = None,
      future_goal_handle = False,
      goal_handle = None,
      time_goal_sent = 0,
      on_feedback_state_change = uninit_feedback_state a,
      goal_received = uninit_goal_received a,
      result = uninit_result a,
      calls = []\<rparr>"

definition create_in_ctor ::
  "string \<Rightarrow> bool \<Rightarrow> ('g, 'f, 'r) RosActionNode \<Rightarrow> exn + ('g, 'f, 'r) RosActionNode" where
  "create_in_ctor server_name found n =
     (case createClient server_name found n of
        (Inl e, n') \<Rightarrow> Inl e
      | (Inr ok, n') \<Rightarrow> Inr n')"

definition both_empty :: exn where
  "both_empty =
     LogicError ''Both [server_name] in the InputPort and the ActionNodeParams are empty.''"

definition construct :: "'r ctor_input \<Rightarrow> exn + ('g, 'f, 'r) RosActionNode" where
  "construct a =
     (let n = members_init a in
      case external_action_client a of
        Some client \<Rightarrow> Inr (n\<lparr>action_client := Some client\<rparr>)
      | None \<Rightarrow>
          if \<not> port_found a then Inl (LogicError (''Can't find port [server_name]. ''
                  @ ''Did you forget to use RosActionNode::providedBasicPorts() ''
                  @ ''in your derived class?''))
          else
            (case port_remap a of
               Some bb_server_name \<Rightarrow>
                 if bb_server_name = [] \<or> bb_server_name = ''__default__placeholder__'' then
                   (if default_server_name a = [] then Inl both_empty
                    else create_in_ctor (default_server_name a) (ctor_server_found a) n)
                 else if \<not> is_blackboard_pointer a then
                   create_in_ctor bb_server_name (ctor_server_found a) n
                 else Inr (n\<lparr>server_name_may_change := True\<rparr>)
             | None \<Rightarrow>
                 if default_server_name a = [] then Inl both_empty
                 else create_in_ctor (default_server_name a) (ctor_server_found a) n))"

subsection \<open>The host\<close>

text \<open>
  Modelled from the spec: the scheduler that polls the node is not part of the header.
  An activation runs from the entry in \<open>IDLE\<close> to the terminal outcome: the host polls
  until a poll yields something other than \<open>RUNNING\<close>, or halts the node; either way it
  puts the node back in \<open>IDLE\<close>.  An exception leaves the host.
\<close>

definition resetStatus :: "('g, 'f, 'r) RosActionNode \<Rightarrow> ('g, 'f, 'r) RosActionNode" where
  "resetStatus n = n\<lparr>status := IDLE\<rparr>"

datatype ('f, 'r) host_call = Poll "('f, 'r) tick_input" | HaltNode "('f, 'r) event list"

datatype ending = Completed NodeStatus | Halted | Thrown exn | InFlight

fun activation ::
  "('g, 'f, 'r) user \<Rightarrow> ('f, 'r) host_call list \<Rightarrow> ('g, 'f, 'r) RosActionNode
     \<Rightarrow> ending \<times> ('g, 'f, 'r) RosActionNode" where
  "activation u [] n = (InFlight, n)"
| "activation u (Poll i # hs) n =
     (case tick u i n of
        (Inl x, n') \<Rightarrow> (Thrown x, n')
      | (Inr s, n') \<Rightarrow>
          if s = RUNNING then activation u hs n' else (Completed s, resetStatus n'))"
| "activation u (HaltNode evs # hs) n =
     (case halt u evs n of
        (Some x, n') \<Rightarrow> (Thrown x, n')
      | (None, n') \<Rightarrow> (Halted, resetStatus n'))"

subsection \<open>Reading the record of calls\<close>

text \<open>The calls made between two states of the node.\<close>

definition new_calls ::
  "('g, 'f, 'r) RosActionNode \<Rightarrow> ('g, 'f, 'r) RosActionNode \<Rightarrow> ('g, 'f, 'r) call list" where
  "new_calls n n' = drop (length (calls n)) (calls n')"

fun bridge_call :: "('g, 'f, 'r) call \<Rightarrow> bool" where
  "bridge_call (CallOnFeeback feedback) = True"
| "bridge_call EmitWakeUpSignal = True"
| "bridge_call c = False"

fun outcome_call :: "('g, 'f, 'r) call \<Rightarrow> bool" where
  "outcome_call (CallOnFailure e) = True"
| "outcome_call (CallOnResultReceived res) = True"
| "outcome_call c = False"

fun send_call :: "('g, 'f, 'r) call \<Rightarrow> bool" where
  "send_call (AsyncSendGoal client goal) = True"
| "send_call c = False"

fun cancel_call :: "('g, 'f, 'r) call \<Rightarrow> bool" where
  "cancel_call (AsyncCancelGoal client h) = True"
| "cancel_call c = False"

fun create_call :: "('g, 'f, 'r) call \<Rightarrow> bool" where
  "create_call (CreateClient server_name) = True"
| "create_call c = False"

subsection \<open>Accounting for the calls of a tick\<close>

text \<open>
  The exceptions of lines 302 and 270, and what the record of one tick has to show for
  its result: at most one call of \<open>onFailure\<close> or \<open>onResultReceived\<close>, whose checked
  value is the result, and no feedback callback that returned \<open>IDLE\<close> without the
  exception.
\<close>

definition idle_error :: exn where
  "idle_error = LogicError ''onFeeback must not retunr IDLE''"

definition check_error :: exn where
  "check_error = LogicError ''RosActionNode: the callback must return either SUCCESS of FAILURE''"

definition accounted ::
  "('g, 'f, 'r) user \<Rightarrow> exn + NodeStatus \<Rightarrow> ('g, 'f, 'r) call list \<Rightarrow> bool" where
  "accounted u r cs \<longleftrightarrow>
     length (filter outcome_call cs) \<le> 1
   \<and> (r = Inr RUNNING \<longrightarrow> filter outcome_call cs = [])
   \<and> ((r = Inr SUCCESS \<or> r = Inr FAILURE) \<and> filter cancel_call cs = []
        \<longrightarrow> length (filter outcome_call cs) = 1)
   \<and> (\<forall>e. CallOnFailure e \<in> set cs \<longrightarrow> r = CheckStatus (onFailure u e))
   \<and> (\<forall>w. CallOnResultReceived w \<in> set cs \<longrightarrow> r = CheckStatus (onResultReceived u w))
   \<and> (\<forall>f. CallOnFeeback f \<in> set cs \<and> onFeeback u f = IDLE \<longrightarrow> r = Inl idle_error)"

text \<open>The feedback message whose callback ran last in a spin.\<close>

fun last_feedback :: "('f, 'r) event list \<Rightarrow> 'f option" where
  "last_feedback [] = None"
| "last_feedback (FeedbackMsg feedback # es) =
     (case last_feedback es of None \<Rightarrow> Some feedback | Some later \<Rightarrow> Some later)"
| "last_feedback (ResultMsg res # es) = last_feedback es"

subsection \<open>A node and its inputs for the examples\<close>

text \<open>
  The user sends goal 10, accepts every result and fails every failure.  Its feedback
  callback asks to stop for feedback 0, goes on for feedback 1, and returns \<open>SKIPPED\<close>
  and \<open>IDLE\<close> for 2 and 3.  \<open>declining_user\<close> declines in \<open>setGoal\<close>; the callbacks of
  \<open>sloppy_user\<close> return values a tick cannot pass on.
\<close>

definition demo_user :: "(nat, nat, nat) user" where
  "demo_user =
     \<lparr>setGoal = Some 10,
      onResultReceived = (\<lambda>res. SUCCESS),
      onFeeback = (\<lambda>feedback. if feedback = 0 then FAILURE
                              else if feedback = 1 then RUNNING
                              else if feedback = 2 then SKIPPED
                              else IDLE),
      onFailure = default_onFailure\<rparr>"

definition declining_user :: "(nat, nat, nat) user" where
  "declining_user = demo_user\<lparr>setGoal := None\<rparr>"

definition sloppy_user :: "(nat, nat, nat) user" where
  "sloppy_user = demo_user\<lparr>onResultReceived := (\<lambda>res. RUNNING), onFailure := (\<lambda>e. SKIPPED)\<rparr>"


definition lenient_user :: "(nat, nat, nat) user" where
  "lenient_user = declining_user\<lparr>onFailure := (\<lambda>e. SUCCESS)\<rparr>"

definition careless_user :: "(nat, nat, nat) user" where
  "careless_user = declining_user\<lparr>onFailure := (\<lambda>e. RUNNING)\<rparr>"

text \<open>
  The node is constructed with a blackboard pointer for the server name and a timeout of
  one second.  \<open>fresh_node\<close> is the node as constructed, \<open>sent_node\<close> the node after the
  tick that sends the goal at time 0, \<open>active_node\<close> the node once handle 7 has come back.
\<close>

definition demo_ctor :: "nat ctor_input" where
  "demo_ctor =
     \<lparr>external_action_client = None,
      port_found = True,
      port_remap = Some ''{server}'',
      is_blackboard_pointer = True,
      default_server_name = [],
      params_server_timeout = 1000,
      ctor_server_found = True,
      uninit_feedback_state = IDLE,
      uninit_goal_received = False,
      uninit_result = empty_result\<rparr>"

definition fresh_node :: "(nat, nat, nat) RosActionNode" where
  "fresh_node =
     \<lparr>status = IDLE,
      prev_server_name = [],
      server_name_may_change = True,
      server_timeout = 1000,
      action_client = None,
      future_goal_handle = False,
      goal_handle = None,
      time_goal_sent = 0,
      on_feedback_state_change = IDLE,
      goal_received = False,
      result = empty_result,
      calls = []\<rparr>"

definition quiet :: "(nat, nat) tick_input" where
  "quiet =
     \<lparr>port_server_name = Some ''fibonacci'',
      server_found = True,
      spun = [],
      spun_accept = [],
      goal_response = None,
      spun_cancel = [],
      now = 0\<rparr>"

definition accepting :: "(nat, nat) tick_input" where
  "accepting = quiet\<lparr>goal_response := Some (Some 7), now := 5\<rparr>"

definition sent_node :: "(nat, nat, nat) RosActionNode" where
  "sent_node =
     \<lparr>status = RUNNING,
      prev_server_name = ''fibonacci'',
      server_name_may_change = True,
      server_timeout = 1000,
      action_client = Some ''fibonacci'',
      future_goal_handle = True,
      goal_handle = None,
      time_goal_sent = 0,
      on_feedback_state_change = RUNNING,
      goal_received = False,
      result = empty_result,
      calls = [CreateClient ''fibonacci'', WaitForActionServer 1000 True,
               CallSetGoal, AsyncSendGoal ''fibonacci'' 10]\<rparr>"

definition active_node :: "(nat, nat, nat) RosActionNode" where
  "active_node = sent_node\<lparr>future_goal_handle := False, goal_handle := Some 7,
                            goal_received := True\<rparr>"





text \<open>
  A result with a given code, the active node once the result callback has stored it,
  the node back in \<open>IDLE\<close> after the activation that ended with the result, and the node
  after the first tick of the next activation.
\<close>

definition got :: "ResultCode \<Rightarrow> nat WrappedResult" where
  "got c = \<lparr>goal_id = 7, code = c, payload = Some 55\<rparr>"

definition result_in :: "ResultCode \<Rightarrow> (nat, nat, nat) RosActionNode" where
  "result_in c = record_call EmitWakeUpSignal (active_node\<lparr>result := got c\<rparr>)"

definition finished_node :: "(nat, nat, nat) RosActionNode" where
  "finished_node =
     resetStatus (snd (tick demo_user (quiet\<lparr>spun := [ResultMsg (got SUCCEEDED)]\<rparr>) active_node))"

definition resent_node :: "(nat, nat, nat) RosActionNode" where
  "resent_node = snd (tick demo_user quiet finished_node)"

text \<open>
  Three spins: in \<open>overwritten\<close> a feedback that asks to stop is followed by one that
  does not and by the result; in \<open>aborting\<close> it is followed by the result alone; in
  \<open>late_feedback\<close> the one that does not ask to stop arrives while \<open>cancelGoal\<close> waits.  Two
  activations: the goal is sent and accepted, and then either a feedback callback asks to
  stop or the result arrives.
\<close>

definition overwritten :: "(nat, nat) tick_input" where
  "overwritten = quiet\<lparr>spun := [FeedbackMsg 0, FeedbackMsg 1, ResultMsg (got SUCCEEDED)]\<rparr>"

definition aborting :: "(nat, nat) tick_input" where
  "aborting = quiet\<lparr>spun := [FeedbackMsg 0, ResultMsg (got SUCCEEDED)]\<rparr>"

definition late_feedback :: "(nat, nat) tick_input" where
  "late_feedback = quiet\<lparr>spun := [FeedbackMsg 0], spun_cancel := [FeedbackMsg 1]\<rparr>"

definition abort_run :: "(nat, nat) host_call list" where
  "abort_run = [Poll quiet, Poll accepting, Poll (quiet\<lparr>spun := [FeedbackMsg 0]\<rparr>)]"

definition success_run :: "(nat, nat) host_call list" where
  "success_run = [Poll quiet, Poll accepting, Poll (quiet\<lparr>spun := [ResultMsg (got SUCCEEDED)]\<rparr>)]"

section \<open>Lemmas\<close>

lemmas model_defs =
  tick_def bind_client_def createClient_def send_goal_def poll_goal_def
  await_goal_response_def check_feedback_and_result_def cancelGoal_def halt_def
  feedback_callback_def result_callback_def record_call_def CheckStatus_def
  new_calls_def resetStatus_def empty_result_def default_onFailure_def default_onFeeback_def
  Let_def

lemmas demo_defs = demo_user_def quiet_def fresh_node_def sent_node_def active_node_def

lemma construct_demo: "construct demo_ctor = Inr fresh_node"
  by (simp add: construct_def demo_ctor_def members_init_def fresh_node_def)

lemma tick_fresh: "tick demo_user quiet fresh_node = (Inr RUNNING, sent_node)"
  by (simp add: model_defs demo_defs)

lemma tick_sent:
  "tick demo_user (quiet\<lparr>goal_response := Some (Some 7), now := 5\<rparr>) sent_node
     = (Inr RUNNING, active_node)"
  by (simp add: model_defs demo_defs)

lemma run_callback_frame:
  assumes "run_callback u e n = (x, n')"
  shows "status n' = status n \<and> prev_server_name n' = prev_server_name n
       \<and> server_name_may_change n' = server_name_may_change n
       \<and> server_timeout n' = server_timeout n \<and> action_client n' = action_client n
       \<and> future_goal_handle n' = future_goal_handle n \<and> goal_handle n' = goal_handle n
       \<and> time_goal_sent n' = time_goal_sent n \<and> goal_received n' = goal_received n"
  using assms
  by (cases e) (auto simp: feedback_callback_def result_callback_def record_call_def Let_def
                     split: if_splits)

lemma deliver_frame:
  assumes "deliver u es n = (x, n')"
  shows "status n' = status n \<and> prev_server_name n' = prev_server_name n
       \<and> server_name_may_change n' = server_name_may_change n
       \<and> server_timeout n' = server_timeout n \<and> action_client n' = action_client n
       \<and> future_goal_handle n' = future_goal_handle n \<and> goal_handle n' = goal_handle n
       \<and> time_goal_sent n' = time_goal_sent n \<and> goal_received n' = goal_received n"
  using assms
proof (induction es arbitrary: n)
  case Nil
  then show ?case by simp
next
  case (Cons e es)
  obtain y m where r: "run_callback u e n = (y, m)" by (cases "run_callback u e n")
  note f = run_callback_frame [OF r]
  show ?case
  proof (cases y)
    case None
    with Cons.prems r have "deliver u es m = (x, n')" by simp
    from Cons.IH [OF this] f show ?thesis by simp
  next
    case (Some a)
    with Cons.prems r have "n' = m" by simp
    with f show ?thesis by simp
  qed
qed

lemma bind_client_skipped:
  "status n \<noteq> IDLE \<Longrightarrow> action_client n \<noteq> None \<Longrightarrow> bind_client i n = (None, n)"
  by (auto simp: bind_client_def)

lemma tick_running:
  "status n = RUNNING \<Longrightarrow> action_client n \<noteq> None \<Longrightarrow> tick u i n = poll_goal u i n"
  by (simp add: tick_def bind_client_skipped)

lemma new_calls_append: "calls n' = calls n @ cs \<Longrightarrow> new_calls n n' = cs"
  by (simp add: new_calls_def)

lemma bridge_call_only:
  "bridge_call c \<Longrightarrow>
     \<not> outcome_call c \<and> \<not> cancel_call c \<and> \<not> send_call c \<and> \<not> create_call c"
  by (cases c) simp_all

lemma bridge_calls_filter:
  assumes "\<forall>c \<in> set cs. bridge_call c"
  shows "filter outcome_call cs = []" and "filter cancel_call cs = []"
    and "filter send_call cs = []" and "filter create_call cs = []"
  using assms by (auto simp: filter_empty_conv dest: bridge_call_only)

lemma bridge_calls_member:
  assumes "\<forall>c \<in> set cs. bridge_call c"
  shows "CallOnFailure e \<notin> set cs" and "CallOnResultReceived w \<notin> set cs"
    and "AsyncCancelGoal client h \<notin> set cs" and "AsyncSendGoal client g \<notin> set cs"
  using assms by auto

text \<open>What a spin adds to the record, and when it throws.\<close>

lemma run_callback_spin:
  assumes "run_callback u e n = (x, n')"
  shows "\<exists>cs. calls n' = calls n @ cs \<and> (\<forall>c \<in> set cs. bridge_call c)
           \<and> (\<forall>f. CallOnFeeback f \<in> set cs \<and> onFeeback u f = IDLE \<longrightarrow> x = Some idle_error)
           \<and> (x \<noteq> None \<longrightarrow> x = Some idle_error)"
  using assms
  by (cases e) (auto simp: feedback_callback_def result_callback_def record_call_def Let_def
                     idle_error_def split: if_splits)

lemma deliver_spin:
  assumes "deliver u es n = (x, n')"
  shows "\<exists>cs. calls n' = calls n @ cs \<and> (\<forall>c \<in> set cs. bridge_call c)
           \<and> (\<forall>f. CallOnFeeback f \<in> set cs \<and> onFeeback u f = IDLE \<longrightarrow> x = Some idle_error)
           \<and> (x \<noteq> None \<longrightarrow> x = Some idle_error)"
  using assms
proof (induction es arbitrary: n)
  case Nil
  then show ?case by simp
next
  case (Cons e es)
  obtain y m where r: "run_callback u e n = (y, m)" by (cases "run_callback u e n")
  from run_callback_spin [OF r] obtain cs1
    where c1: "calls m = calls n @ cs1" "\<forall>c \<in> set cs1. bridge_call c"
      "\<forall>f. CallOnFeeback f \<in> set cs1 \<and> onFeeback u f = IDLE \<longrightarrow> y = Some idle_error"
      "y \<noteq> None \<longrightarrow> y = Some idle_error"
    by blast
  show ?case
  proof (cases y)
    case None
    with Cons.prems r have "deliver u es m = (x, n')" by simp
    from Cons.IH [OF this] obtain cs2
      where c2: "calls n' = calls m @ cs2" "\<forall>c \<in> set cs2. bridge_call c"
        "\<forall>f. CallOnFeeback f \<in> set cs2 \<and> onFeeback u f = IDLE \<longrightarrow> x = Some idle_error"
        "x \<noteq> None \<longrightarrow> x = Some idle_error"
      by blast
    from c1 c2 None have "calls n' = calls n @ (cs1 @ cs2)
        \<and> (\<forall>c \<in> set (cs1 @ cs2). bridge_call c)
        \<and> (\<forall>f. CallOnFeeback f \<in> set (cs1 @ cs2) \<and> onFeeback u f = IDLE \<longrightarrow> x = Some idle_error)
        \<and> (x \<noteq> None \<longrightarrow> x = Some idle_error)"
      by auto
    then show ?thesis by blast
  next
    case (Some a)
    with Cons.prems r have "n' = m" "x = y" by simp_all
    with c1 show ?thesis by blast
  qed
qed

lemma accounted_thrown_in_spin:
  assumes "\<forall>c \<in> set cs. bridge_call c"
    and "\<forall>f. CallOnFeeback f \<in> set cs \<and> onFeeback u f = IDLE \<longrightarrow> x = Some idle_error"
    and "x = Some y" and "x \<noteq> None \<longrightarrow> x = Some idle_error"
  shows "accounted u (Inl y) cs"
  using assms bridge_calls_filter [OF assms(1)] bridge_calls_member [OF assms(1)]
  by (auto simp: accounted_def)

lemma accounted_after_spin:
  assumes "\<forall>c \<in> set a. bridge_call c"
    and "\<forall>f. CallOnFeeback f \<in> set a \<and> onFeeback u f = IDLE \<longrightarrow> (None :: exn option) = Some idle_error"
    and "accounted u r b"
  shows "accounted u r (a @ b)"
  using assms bridge_calls_filter [OF assms(1)] bridge_calls_member [OF assms(1)]
  by (auto simp: accounted_def)


lemma cancelGoal_calls:
  assumes "cancelGoal u evs n = (x, n')" and "action_client n = Some client"
  shows "\<exists>cs. calls n' = calls n @ AsyncCancelGoal client (goal_handle n) # cs
           \<and> (\<forall>c \<in> set cs. bridge_call c)
           \<and> (\<forall>f. CallOnFeeback f \<in> set cs \<and> onFeeback u f = IDLE \<longrightarrow> x = Some idle_error)
           \<and> (x \<noteq> None \<longrightarrow> x = Some idle_error)"
proof -
  from assms have "deliver u evs (record_call (AsyncCancelGoal client (goal_handle n)) n) = (x, n')"
    by (simp add: cancelGoal_def)
  from deliver_spin [OF this] show ?thesis by (simp add: record_call_def)
qed

lemma cancelGoal_frame:
  assumes "cancelGoal u evs n = (x, n')"
  shows "status n' = status n \<and> prev_server_name n' = prev_server_name n
       \<and> server_name_may_change n' = server_name_may_change n
       \<and> server_timeout n' = server_timeout n \<and> action_client n' = action_client n
       \<and> future_goal_handle n' = future_goal_handle n \<and> goal_handle n' = goal_handle n
       \<and> time_goal_sent n' = time_goal_sent n \<and> goal_received n' = goal_received n"
proof (cases "action_client n")
  case None
  with assms show ?thesis by (simp add: cancelGoal_def)
next
  case (Some client)
  with assms have "deliver u evs (record_call (AsyncCancelGoal client (goal_handle n)) n) = (x, n')"
    by (simp add: cancelGoal_def)
  from deliver_frame [OF this] show ?thesis by (simp add: record_call_def)
qed

lemma CheckStatus_not_RUNNING: "CheckStatus s \<noteq> Inr RUNNING"
  by (simp add: CheckStatus_def)

lemma CheckStatus_cases:
  "CheckStatus s = (if s = SUCCESS \<or> s = FAILURE then Inr s else Inl check_error)"
  by (simp add: CheckStatus_def check_error_def)

lemma accounted_one_outcome:
  assumes "outcome_call c"
    and "\<forall>e. c = CallOnFailure e \<longrightarrow> r = CheckStatus (onFailure u e)"
    and "\<forall>w. c = CallOnResultReceived w \<longrightarrow> r = CheckStatus (onResultReceived u w)"
  shows "accounted u r [c]"
  using assms by (cases c) (auto simp: accounted_def CheckStatus_not_RUNNING)

lemma accounted_cancel:
  assumes "\<forall>c \<in> set cs. bridge_call c"
    and "\<forall>f. CallOnFeeback f \<in> set cs \<and> onFeeback u f = IDLE \<longrightarrow> r = Inl idle_error"
  shows "accounted u r (AsyncCancelGoal client h # cs)"
  using assms bridge_calls_filter [OF assms(1)] bridge_calls_member [OF assms(1)]
  by (auto simp: accounted_def)



lemma check_feedback_and_result_calls:
  assumes "check_feedback_and_result u i n = (r, n')"
  shows "\<exists>cs. calls n' = calls n @ cs \<and> accounted u r cs
           \<and> filter create_call cs = [] \<and> filter send_call cs = []"
proof (cases "on_feedback_state_change n \<noteq> RUNNING")
  case True
  show ?thesis
  proof (cases "action_client n")
    case None
    with True assms have "n' = n" "r = Inl NullClient"
      by (simp_all add: check_feedback_and_result_def cancelGoal_def)
    then have "calls n' = calls n @ [] \<and> accounted u r []
           \<and> filter create_call [] = [] \<and> filter send_call [] = []"
      by (simp add: accounted_def)
    then show ?thesis by blast
  next
    case (Some client)
    obtain x m where c: "cancelGoal u (spun_cancel i) n = (x, m)"
      by (cases "cancelGoal u (spun_cancel i) n")
    from cancelGoal_calls [OF c Some] obtain cs
      where cs: "calls m = calls n @ AsyncCancelGoal client (goal_handle n) # cs"
        "\<forall>c \<in> set cs. bridge_call c"
        "\<forall>f. CallOnFeeback f \<in> set cs \<and> onFeeback u f = IDLE \<longrightarrow> x = Some idle_error"
        "x \<noteq> None \<longrightarrow> x = Some idle_error"
      by blast
    from True assms c have r: "n' = m"
      "r = (case x of Some y \<Rightarrow> Inl y | None \<Rightarrow> Inr (on_feedback_state_change m))"
      by (auto simp: check_feedback_and_result_def split: option.splits)
    have "\<forall>f. CallOnFeeback f \<in> set cs \<and> onFeeback u f = IDLE \<longrightarrow> r = Inl idle_error"
      using cs(3) r(2) by simp
    from accounted_cancel [OF cs(2) this]
    have a: "accounted u r (AsyncCancelGoal client (goal_handle n) # cs)" .
    have "calls n' = calls n @ (AsyncCancelGoal client (goal_handle n) # cs)
           \<and> accounted u r (AsyncCancelGoal client (goal_handle n) # cs)
           \<and> filter create_call (AsyncCancelGoal client (goal_handle n) # cs) = []
           \<and> filter send_call (AsyncCancelGoal client (goal_handle n) # cs) = []"
      using a cs(1) r(1) bridge_calls_filter [OF cs(2)] by simp
    then show ?thesis by blast
  qed
next
  case False
  then have f: "on_feedback_state_change n = RUNNING" by simp
  show ?thesis
  proof (cases "code (result n) = UNKNOWN")
    case True
    with f assms have "n' = n" "r = Inr RUNNING"
      by (simp_all add: check_feedback_and_result_def)
    then have "calls n' = calls n @ [] \<and> accounted u r []
           \<and> filter create_call [] = [] \<and> filter send_call [] = []"
      by (simp add: accounted_def)
    then show ?thesis by blast
  next
    case False
    define c :: "('a, 'b, 'c) call" where
      "c = (if code (result n) = ABORTED then CallOnFailure ACTION_ABORTED
            else if code (result n) = CANCELED then CallOnFailure ACTION_CANCELLED
            else CallOnResultReceived (result n))"
    from False f assms have n': "n' = record_call c n"
      by (simp add: check_feedback_and_result_def c_def split: if_splits)
    from False f assms have r: "outcome_call c"
      "\<forall>e. c = CallOnFailure e \<longrightarrow> r = CheckStatus (onFailure u e)"
      "\<forall>w. c = CallOnResultReceived w \<longrightarrow> r = CheckStatus (onResultReceived u w)"
      by (auto simp add: check_feedback_and_result_def c_def split: if_splits)
    have k: "\<not> create_call c" "\<not> send_call c" by (simp_all add: c_def)
    from accounted_one_outcome [OF r] have "accounted u r [c]" .
    with n' k have "calls n' = calls n @ [c] \<and> accounted u r [c]
           \<and> filter create_call [c] = [] \<and> filter send_call [c] = []"
      by (simp add: record_call_def)
    then show ?thesis by blast
  qed
qed


lemma check_feedback_and_result_frame:
  assumes "check_feedback_and_result u i n = (r, n')"
  shows "status n' = status n \<and> prev_server_name n' = prev_server_name n
       \<and> server_name_may_change n' = server_name_may_change n
       \<and> server_timeout n' = server_timeout n \<and> action_client n' = action_client n
       \<and> future_goal_handle n' = future_goal_handle n \<and> goal_handle n' = goal_handle n
       \<and> time_goal_sent n' = time_goal_sent n \<and> goal_received n' = goal_received n"
proof (cases "on_feedback_state_change n \<noteq> RUNNING")
  case True
  obtain x m where c: "cancelGoal u (spun_cancel i) n = (x, m)"
    by (cases "cancelGoal u (spun_cancel i) n")
  with True assms have "n' = m"
    by (auto simp: check_feedback_and_result_def split: option.splits)
  with cancelGoal_frame [OF c] show ?thesis by simp
next
  case False
  then have "n' = n \<or> (\<exists>c. n' = record_call c n)"
    using assms by (auto simp: check_feedback_and_result_def split: if_splits)
  then show ?thesis by (auto simp: record_call_def)
qed

lemma await_goal_response_calls:
  assumes "await_goal_response u i n = (ro, n')"
  shows "\<exists>cs. calls n' = calls n @ cs
           \<and> (\<forall>r. ro = Some r \<longrightarrow> accounted u r cs)
           \<and> (ro = None \<longrightarrow> (\<forall>c \<in> set cs. bridge_call c)
                 \<and> (\<forall>f. CallOnFeeback f \<in> set cs \<longrightarrow> onFeeback u f \<noteq> IDLE))
           \<and> filter create_call cs = [] \<and> filter send_call cs = []"
proof (cases "future_goal_handle n")
  case False
  with assms have "n' = n" "ro = Some (Inl InvalidFuture)"
    by (simp_all add: await_goal_response_def)
  then have "calls n' = calls n @ []
           \<and> (\<forall>r. ro = Some r \<longrightarrow> accounted u r [])
           \<and> (ro = None \<longrightarrow> (\<forall>c \<in> set []. bridge_call c)
                 \<and> (\<forall>f. CallOnFeeback f \<in> set [] \<longrightarrow> onFeeback u f \<noteq> IDLE))
           \<and> filter create_call [] = [] \<and> filter send_call [] = []"
    by (simp add: accounted_def)
  then show ?thesis by blast
next
  case True
  obtain x m where d: "deliver u (spun_accept i) n = (x, m)"
    by (cases "deliver u (spun_accept i) n")
  from deliver_spin [OF d] obtain cs
    where cs: "calls m = calls n @ cs" "\<forall>c \<in> set cs. bridge_call c"
      "\<forall>f. CallOnFeeback f \<in> set cs \<and> onFeeback u f = IDLE \<longrightarrow> x = Some idle_error"
      "x \<noteq> None \<longrightarrow> x = Some idle_error"
    by blast
  note bf = bridge_calls_filter [OF cs(2)]
  show ?thesis
  proof (cases x)
    case (Some y)
    with True d assms have e: "n' = m" "ro = Some (Inl y)"
      by (simp_all add: await_goal_response_def)
    from accounted_thrown_in_spin [OF cs(2,3) Some cs(4)] have "accounted u (Inl y) cs" .
    with e cs(1) bf have "calls n' = calls n @ cs
           \<and> (\<forall>r. ro = Some r \<longrightarrow> accounted u r cs)
           \<and> (ro = None \<longrightarrow> (\<forall>c \<in> set cs. bridge_call c)
                 \<and> (\<forall>f. CallOnFeeback f \<in> set cs \<longrightarrow> onFeeback u f \<noteq> IDLE))
           \<and> filter create_call cs = [] \<and> filter send_call cs = []"
      by simp
    then show ?thesis by blast
  next
    case None
    with cs(3) have ok: "\<forall>f. CallOnFeeback f \<in> set cs \<and> onFeeback u f = IDLE
                          \<longrightarrow> (None :: exn option) = Some idle_error"
      by simp
    show ?thesis
    proof (cases "goal_response i")
      case (Some h)
      with None True d assms have e: "calls n' = calls m" "ro = None \<or> (\<exists>z. ro = Some (Inl z))"
        by (auto simp: await_goal_response_def Let_def split: if_splits)
      have "accounted u (Inl z) cs" for z
        using bridge_calls_filter [OF cs(2)] bridge_calls_member [OF cs(2)] ok
        by (auto simp: accounted_def)
      with e cs(1,2) bf ok have "calls n' = calls n @ cs
           \<and> (\<forall>r. ro = Some r \<longrightarrow> accounted u r cs)
           \<and> (ro = None \<longrightarrow> (\<forall>c \<in> set cs. bridge_call c)
                 \<and> (\<forall>f. CallOnFeeback f \<in> set cs \<longrightarrow> onFeeback u f \<noteq> IDLE))
           \<and> filter create_call cs = [] \<and> filter send_call cs = []"
        by auto
      then show ?thesis by blast
    next
      case g: None
      show ?thesis
      proof (cases "timeout m")
        case tn: None
        with g None True d assms have e: "n' = m" "ro = Some (Inl UndefinedConversion)"
          by (simp_all add: await_goal_response_def)
        have "accounted u (Inl UndefinedConversion) cs"
          using bridge_calls_filter [OF cs(2)] bridge_calls_member [OF cs(2)] ok
          by (auto simp: accounted_def)
        with e cs(1) bf have "calls n' = calls n @ cs
           \<and> (\<forall>r. ro = Some r \<longrightarrow> accounted u r cs)
           \<and> (ro = None \<longrightarrow> (\<forall>c \<in> set cs. bridge_call c)
                 \<and> (\<forall>f. CallOnFeeback f \<in> set cs \<longrightarrow> onFeeback u f \<noteq> IDLE))
           \<and> filter create_call cs = [] \<and> filter send_call cs = []"
          by simp
        then show ?thesis by blast
      next
        case ts: (Some t)
        show ?thesis
        proof (cases "now i - time_goal_sent m > t")
          case False
          with ts g None True d assms have e: "n' = m" "ro = Some (Inr RUNNING)"
            by (simp_all add: await_goal_response_def)
          have "accounted u (Inr RUNNING) ([] :: ('a, 'b, 'c) call list)"
            by (simp add: accounted_def)
          from accounted_after_spin [OF cs(2) ok this] e cs(1) bf
          have "calls n' = calls n @ cs
             \<and> (\<forall>r. ro = Some r \<longrightarrow> accounted u r cs)
             \<and> (ro = None \<longrightarrow> (\<forall>c \<in> set cs. bridge_call c)
                   \<and> (\<forall>f. CallOnFeeback f \<in> set cs \<longrightarrow> onFeeback u f \<noteq> IDLE))
             \<and> filter create_call cs = [] \<and> filter send_call cs = []"
            by simp
          then show ?thesis by blast
        next
          case expired: True
          with ts g None True d assms
          have e: "n' = record_call (CallOnFailure SEND_GOAL_TIMEOUT) m"
            "ro = Some (CheckStatus (onFailure u SEND_GOAL_TIMEOUT))"
            by (simp_all add: await_goal_response_def)
          have "accounted u (CheckStatus (onFailure u SEND_GOAL_TIMEOUT))
                  [CallOnFailure SEND_GOAL_TIMEOUT]"
            by (rule accounted_one_outcome) simp_all
          from accounted_after_spin [OF cs(2) ok this] e cs(1) bf
          have "calls n' = calls n @ (cs @ [CallOnFailure SEND_GOAL_TIMEOUT])
             \<and> (\<forall>r. ro = Some r \<longrightarrow> accounted u r (cs @ [CallOnFailure SEND_GOAL_TIMEOUT]))
             \<and> (ro = None \<longrightarrow> (\<forall>c \<in> set (cs @ [CallOnFailure SEND_GOAL_TIMEOUT]). bridge_call c)
                   \<and> (\<forall>f. CallOnFeeback f \<in> set (cs @ [CallOnFailure SEND_GOAL_TIMEOUT])
                          \<longrightarrow> onFeeback u f \<noteq> IDLE))
             \<and> filter create_call (cs @ [CallOnFailure SEND_GOAL_TIMEOUT]) = []
             \<and> filter send_call (cs @ [CallOnFailure SEND_GOAL_TIMEOUT]) = []"
            by (simp add: record_call_def)
          then show ?thesis by blast
        qed
      qed
    qed
  qed
qed

lemma await_goal_response_frame:
  assumes "await_goal_response u i n = (ro, n')"
  shows "status n' = status n \<and> prev_server_name n' = prev_server_name n
       \<and> server_name_may_change n' = server_name_may_change n
       \<and> server_timeout n' = server_timeout n \<and> action_client n' = action_client n
       \<and> (\<not> goal_received n' \<longrightarrow> goal_handle n' = goal_handle n)"
proof (cases "future_goal_handle n")
  case False
  with assms show ?thesis by (simp add: await_goal_response_def)
next
  case True
  obtain x m where d: "deliver u (spun_accept i) n = (x, m)"
    by (cases "deliver u (spun_accept i) n")
  note f = deliver_frame [OF d]
  from True d assms
  have "n' = m \<or> n' = record_call (CallOnFailure SEND_GOAL_TIMEOUT) m
      \<or> (\<exists>h. n' = m\<lparr>goal_received := True, goal_handle := h, future_goal_handle := False\<rparr>)"
    by (auto simp: await_goal_response_def Let_def split: option.splits if_splits)
  with f show ?thesis by (auto simp: record_call_def)
qed

lemma poll_goal_calls:
  assumes "poll_goal u i n = (r, n')"
  shows "\<exists>cs. calls n' = calls n @ cs \<and> accounted u r cs
           \<and> filter create_call cs = [] \<and> filter send_call cs = []"
proof -
  obtain x n1 where d: "deliver u (spun i) n = (x, n1)" by (cases "deliver u (spun i) n")
  from deliver_spin [OF d] obtain cs1
    where cs1: "calls n1 = calls n @ cs1" "\<forall>c \<in> set cs1. bridge_call c"
      "\<forall>f. CallOnFeeback f \<in> set cs1 \<and> onFeeback u f = IDLE \<longrightarrow> x = Some idle_error"
      "x \<noteq> None \<longrightarrow> x = Some idle_error"
    by blast
  note bf1 = bridge_calls_filter [OF cs1(2)]
  show ?thesis
  proof (cases x)
    case (Some y)
    with d assms have e: "n' = n1" "r = Inl y" by (simp_all add: poll_goal_def)
    from accounted_thrown_in_spin [OF cs1(2,3) Some cs1(4)] e cs1(1) bf1
    have "calls n' = calls n @ cs1 \<and> accounted u r cs1
           \<and> filter create_call cs1 = [] \<and> filter send_call cs1 = []"
      by simp
    then show ?thesis by blast
  next
    case None
    with cs1(3) have ok1: "\<forall>f. CallOnFeeback f \<in> set cs1 \<and> onFeeback u f = IDLE
                          \<longrightarrow> (None :: exn option) = Some idle_error"
      by simp
    have rest: "\<exists>cs. calls n' = calls n1 @ cs \<and> accounted u r cs
           \<and> filter create_call cs = [] \<and> filter send_call cs = []"
    proof (cases "goal_received n1")
      case True
      with None d assms have "check_feedback_and_result u i n1 = (r, n')"
        by (simp add: poll_goal_def)
      then show ?thesis by (rule check_feedback_and_result_calls)
    next
      case False
      obtain ro n2 where a: "await_goal_response u i n1 = (ro, n2)"
        by (cases "await_goal_response u i n1")
      from await_goal_response_calls [OF a] obtain cs2
        where cs2: "calls n2 = calls n1 @ cs2"
          "\<forall>r. ro = Some r \<longrightarrow> accounted u r cs2"
          "ro = None \<longrightarrow> (\<forall>c \<in> set cs2. bridge_call c)
                 \<and> (\<forall>f. CallOnFeeback f \<in> set cs2 \<longrightarrow> onFeeback u f \<noteq> IDLE)"
          "filter create_call cs2 = []" "filter send_call cs2 = []"
        by blast
      show ?thesis
      proof (cases ro)
        case (Some r2)
        with False None d a assms have "n' = n2" "r = r2" by (simp_all add: poll_goal_def)
        with cs2 Some have "calls n' = calls n1 @ cs2 \<and> accounted u r cs2
           \<and> filter create_call cs2 = [] \<and> filter send_call cs2 = []"
          by simp
        then show ?thesis by blast
      next
        case g: None
        with False None d a assms have "check_feedback_and_result u i n2 = (r, n')"
          by (simp add: poll_goal_def)
        from check_feedback_and_result_calls [OF this] obtain cs3
          where cs3: "calls n' = calls n2 @ cs3" "accounted u r cs3"
            "filter create_call cs3 = []" "filter send_call cs3 = []"
          by blast
        from g cs2(3) have b2: "\<forall>c \<in> set cs2. bridge_call c"
          "\<forall>f. CallOnFeeback f \<in> set cs2 \<and> onFeeback u f = IDLE
                \<longrightarrow> (None :: exn option) = Some idle_error"
          by simp_all
        from accounted_after_spin [OF b2 cs3(2)] cs2(1,4,5) cs3(1,3,4)
        have "calls n' = calls n1 @ (cs2 @ cs3) \<and> accounted u r (cs2 @ cs3)
           \<and> filter create_call (cs2 @ cs3) = [] \<and> filter send_call (cs2 @ cs3) = []"
          by simp
        then show ?thesis by blast
      qed
    qed
    then obtain cs where cs: "calls n' = calls n1 @ cs" "accounted u r cs"
      "filter create_call cs = []" "filter send_call cs = []"
      by blast
    from accounted_after_spin [OF cs1(2) ok1 cs(2)] cs1(1) bf1 cs(1,3,4)
    have "calls n' = calls n @ (cs1 @ cs) \<and> accounted u r (cs1 @ cs)
           \<and> filter create_call (cs1 @ cs) = [] \<and> filter send_call (cs1 @ cs) = []"
      by simp
    then show ?thesis by blast
  qed
qed

lemma poll_goal_frame:
  assumes "poll_goal u i n = (r, n')"
  shows "status n' = status n \<and> prev_server_name n' = prev_server_name n
       \<and> server_name_may_change n' = server_name_may_change n
       \<and> server_timeout n' = server_timeout n \<and> action_client n' = action_client n
       \<and> (\<not> goal_received n' \<longrightarrow> goal_handle n' = goal_handle n)"
proof -
  obtain x n1 where d: "deliver u (spun i) n = (x, n1)" by (cases "deliver u (spun i) n")
  note f1 = deliver_frame [OF d]
  show ?thesis
  proof (cases x)
    case (Some y)
    with d assms have "n' = n1" by (simp add: poll_goal_def)
    with f1 show ?thesis by simp
  next
    case None
    show ?thesis
    proof (cases "goal_received n1")
      case True
      with None d assms have "check_feedback_and_result u i n1 = (r, n')"
        by (simp add: poll_goal_def)
      from check_feedback_and_result_frame [OF this] f1 show ?thesis by simp
    next
      case False
      obtain ro n2 where a: "await_goal_response u i n1 = (ro, n2)"
        by (cases "await_goal_response u i n1")
      note f2 = await_goal_response_frame [OF a]
      show ?thesis
      proof (cases ro)
        case (Some r2)
        with False None d a assms have "n' = n2" by (simp add: poll_goal_def)
        with f1 f2 show ?thesis by simp
      next
        case g: None
        with False None d a assms have "check_feedback_and_result u i n2 = (r, n')"
          by (simp add: poll_goal_def)
        from check_feedback_and_result_frame [OF this] f1 f2 show ?thesis by simp
      qed
    qed
  qed
qed


lemma bind_client_cases:
  assumes "bind_client i n = (x, n0)"
  shows "(n0 = n \<and> (x = None \<or> x = Some (BtRuntimeError ''server_name is empty'')))
       \<or> (\<exists>name. x = None \<and> name \<noteq> []
             \<and> n0 = n\<lparr>action_client := Some name, prev_server_name := name,
                       calls := calls n @ [CreateClient name,
                                           WaitForActionServer (server_timeout n) (server_found i)]\<rparr>)"
  using assms
  by (auto simp: bind_client_def createClient_def Let_def split: if_splits option.splits)

lemma bind_client_calls:
  assumes "bind_client i n = (x, n0)"
  shows "status n0 = status n \<and> goal_handle n0 = goal_handle n
       \<and> goal_received n0 = goal_received n
       \<and> (\<exists>cs. calls n0 = calls n @ cs \<and> filter outcome_call cs = []
              \<and> filter cancel_call cs = [] \<and> filter send_call cs = []
              \<and> (\<forall>f. CallOnFeeback f \<notin> set cs))"
proof -
  from bind_client_cases [OF assms]
  have "status n0 = status n \<and> goal_handle n0 = goal_handle n
       \<and> goal_received n0 = goal_received n
       \<and> (calls n0 = calls n @ []
            \<or> calls n0 = calls n @ [CreateClient (prev_server_name n0),
                                      WaitForActionServer (server_timeout n) (server_found i)])"
    by auto
  then show ?thesis by fastforce
qed

lemma accounted_after_bind:
  assumes "filter outcome_call a = []" and "\<forall>f. CallOnFeeback f \<notin> set a"
    and "accounted u r b"
  shows "accounted u r (a @ b)"
proof -
  from assms(1) have "\<forall>c \<in> set a. \<not> outcome_call c" by (simp add: filter_empty_conv)
  then have "\<forall>e. CallOnFailure e \<notin> set a" "\<forall>w. CallOnResultReceived w \<notin> set a" by auto
  with assms show ?thesis by (auto simp: accounted_def)
qed

lemma send_goal_cases:
  assumes "send_goal u i n = (r, n')"
  shows "(setGoal u = None \<and> r = CheckStatus (onFailure u INVALID_GOAL)
            \<and> calls n' = calls n @ [CallSetGoal, CallOnFailure INVALID_GOAL])
       \<or> (setGoal u \<noteq> None \<and> action_client n = None \<and> r = Inl NullClient
            \<and> calls n' = calls n @ [CallSetGoal])
       \<or> (\<exists>goal client. setGoal u = Some goal \<and> action_client n = Some client \<and> r = Inr RUNNING
            \<and> calls n' = calls n @ [CallSetGoal, AsyncSendGoal client goal])"
  using assms
  by (auto simp: send_goal_def record_call_def Let_def split: option.splits)

lemma send_goal_frame:
  assumes "send_goal u i n = (r, n')"
  shows "status n' = RUNNING \<and> prev_server_name n' = prev_server_name n
       \<and> server_name_may_change n' = server_name_may_change n
       \<and> server_timeout n' = server_timeout n \<and> action_client n' = action_client n
       \<and> goal_handle n' = goal_handle n \<and> \<not> goal_received n'
       \<and> (r = Inr RUNNING \<longrightarrow> action_client n' \<noteq> None)"
  using assms
  by (auto simp: send_goal_def record_call_def Let_def CheckStatus_def
           split: option.splits if_splits)

lemma send_goal_calls:
  assumes "send_goal u i n = (r, n')"
  shows "\<exists>cs. calls n' = calls n @ cs \<and> accounted u r cs"
proof -
  have "accounted u (CheckStatus (onFailure u INVALID_GOAL)) [CallSetGoal, CallOnFailure INVALID_GOAL]"
    by (simp add: accounted_def CheckStatus_not_RUNNING)
  moreover have "accounted u (Inl NullClient) [CallSetGoal]"
    by (simp add: accounted_def)
  moreover have "accounted u (Inr RUNNING) [CallSetGoal, AsyncSendGoal client goal]" for client goal
    by (simp add: accounted_def)
  ultimately show ?thesis using send_goal_cases [OF assms] by blast
qed

lemma tick_calls:
  assumes "tick u i n = (r, n')"
  shows "\<exists>cs. calls n' = calls n @ cs \<and> accounted u r cs"
proof -
  obtain x n0 where b: "bind_client i n = (x, n0)" by (cases "bind_client i n")
  from bind_client_calls [OF b] obtain cs0
    where cs0: "calls n0 = calls n @ cs0" "filter outcome_call cs0 = []"
      "\<forall>f. CallOnFeeback f \<notin> set cs0"
    by blast
  have "\<exists>cs. calls n' = calls n0 @ cs \<and> accounted u r cs"
  proof (cases x)
    case (Some y)
    with b assms have "n' = n0" "r = Inl y" by (simp_all add: tick_def)
    then have "calls n' = calls n0 @ [] \<and> accounted u r []" by (simp add: accounted_def)
    then show ?thesis by blast
  next
    case None
    show ?thesis
    proof (cases "status n0 = IDLE")
      case True
      with None b assms have "send_goal u i n0 = (r, n')" by (simp add: tick_def)
      then show ?thesis by (rule send_goal_calls)
    next
      case False
      show ?thesis
      proof (cases "status n0 = RUNNING")
        case True
        with None b assms have "poll_goal u i n0 = (r, n')" by (simp add: tick_def)
        from poll_goal_calls [OF this] show ?thesis by blast
      next
        case nr: False
        with False None b assms have "n' = n0" "r = Inr RUNNING" by (simp_all add: tick_def)
        then have "calls n' = calls n0 @ [] \<and> accounted u r []" by (simp add: accounted_def)
        then show ?thesis by blast
      qed
    qed
  qed
  then obtain cs where cs: "calls n' = calls n0 @ cs" "accounted u r cs" by blast
  from accounted_after_bind [OF cs0(2,3) cs(2)] cs0(1) cs(1)
  have "calls n' = calls n @ (cs0 @ cs) \<and> accounted u r (cs0 @ cs)" by simp
  then show ?thesis by blast
qed

section \<open>The claims\<close>



text \<open>
  C6.  With the goal accepted and the feedback state still \<open>RUNNING\<close> after the callbacks
  of \<open>spin_some\<close>, the poll goes by the code of the stored result: \<open>ABORTED\<close> gives the
  checked value of \<open>onFailure(ACTION_ABORTED)\<close>, \<open>CANCELED\<close> that of
  \<open>onFailure(ACTION_CANCELLED)\<close>, \<open>SUCCEEDED\<close> that of \<open>onResultReceived(result_)\<close>, and
  while the code is \<open>UNKNOWN\<close> (no result has arrived) the poll returns \<open>RUNNING\<close>.
\<close>

theorem result_dispatch:
  assumes "status n = RUNNING" and "action_client n \<noteq> None" and "goal_received n"
    and "deliver u (spun i) n = (None, n1)"
    and "on_feedback_state_change n1 = RUNNING"
  shows "tick u i n =
           (case code (result n1) of
              UNKNOWN \<Rightarrow> (Inr RUNNING, n1)
            | SUCCEEDED \<Rightarrow> (CheckStatus (onResultReceived u (result n1)),
                            record_call (CallOnResultReceived (result n1)) n1)
            | CANCELED \<Rightarrow> (CheckStatus (onFailure u ACTION_CANCELLED),
                           record_call (CallOnFailure ACTION_CANCELLED) n1)
            | ABORTED \<Rightarrow> (CheckStatus (onFailure u ACTION_ABORTED),
                          record_call (CallOnFailure ACTION_ABORTED) n1))"
proof -
  from deliver_frame [OF assms(4)] assms(3) have a: "goal_received n1" by simp
  have "tick u i n = poll_goal u i n" using assms(1,2) by (rule tick_running)
  also have "\<dots> = check_feedback_and_result u i n1"
    using assms(4) a by (simp add: poll_goal_def)
  finally show ?thesis
    using assms(5) by (cases "code (result n1)") (simp_all add: check_feedback_and_result_def)
qed

text \<open>
  A result message arrives for the accepted goal of the examples, once with each code;
  with no message the poll stays \<open>RUNNING\<close>.
\<close>

theorem result_dispatch_witness:
  "tick demo_user (quiet\<lparr>spun := [ResultMsg (got SUCCEEDED)]\<rparr>) active_node
     = (Inr SUCCESS, record_call (CallOnResultReceived (got SUCCEEDED)) (result_in SUCCEEDED))
   \<and> tick demo_user (quiet\<lparr>spun := [ResultMsg (got ABORTED)]\<rparr>) active_node
     = (Inr FAILURE, record_call (CallOnFailure ACTION_ABORTED) (result_in ABORTED))
   \<and> tick demo_user (quiet\<lparr>spun := [ResultMsg (got CANCELED)]\<rparr>) active_node
     = (Inr FAILURE, record_call (CallOnFailure ACTION_CANCELLED) (result_in CANCELED))
   \<and> tick demo_user quiet active_node = (Inr RUNNING, active_node)"
  using
    result_dispatch [of active_node demo_user "quiet\<lparr>spun := [ResultMsg (got SUCCEEDED)]\<rparr>"
                        "result_in SUCCEEDED"]
    result_dispatch [of active_node demo_user "quiet\<lparr>spun := [ResultMsg (got ABORTED)]\<rparr>"
                        "result_in ABORTED"]
    result_dispatch [of active_node demo_user "quiet\<lparr>spun := [ResultMsg (got CANCELED)]\<rparr>"
                        "result_in CANCELED"]
    result_dispatch [of active_node demo_user quiet active_node]
  by (simp add: demo_defs got_def result_in_def result_callback_def record_call_def
        CheckStatus_def default_onFailure_def empty_result_def)



lemma bind_client_status: "bind_client i n = (x, n0) \<Longrightarrow> status n0 = status n"
  using bind_client_calls by blast

lemma bind_client_no_send:
  assumes "bind_client i n = (x, n0)"
  shows "\<exists>cs. calls n0 = calls n @ cs \<and> filter send_call cs = []"
  using bind_client_calls [OF assms] by blast

text \<open>
  C5.  When \<open>setGoal\<close> returns false, the first poll of an activation (the node is in
  \<open>IDLE\<close>) calls \<open>onFailure(INVALID_GOAL)\<close> and returns its value if that is \<open>SUCCESS\<close> or
  \<open>FAILURE\<close>, and throws the \<open>std::logic_error\<close> of line 270 otherwise, provided the
  binding step before it does not throw on an empty server name; and the activation ends
  with that poll, whatever the host would have done next, without an \<open>async_send_goal\<close>.
\<close>

theorem invalid_goal:
  assumes "status n = IDLE" and "setGoal u = None"
  shows "(fst (bind_client i n) = None \<longrightarrow>
            fst (tick u i n)
              = (if onFailure u INVALID_GOAL = SUCCESS \<or> onFailure u INVALID_GOAL = FAILURE
                 then Inr (onFailure u INVALID_GOAL) else Inl check_error)
          \<and> CallOnFailure INVALID_GOAL \<in> set (new_calls n (snd (tick u i n))))
       \<and> filter send_call (new_calls n (snd (activation u (Poll i # hs) n))) = []
       \<and> fst (activation u (Poll i # hs) n) \<noteq> InFlight"
proof -
  obtain x n0 where b: "bind_client i n = (x, n0)" by (cases "bind_client i n")
  from bind_client_status [OF b] assms(1) have s0: "status n0 = IDLE" by simp
  from bind_client_no_send [OF b] obtain cs0
    where cs0: "calls n0 = calls n @ cs0" "filter send_call cs0 = []" by blast
  show ?thesis
  proof (cases x)
    case (Some y)
    with b have t: "tick u i n = (Inl y, n0)" by (simp add: tick_def)
    with b Some cs0 show ?thesis by (simp add: new_calls_def)
  next
    case None
    let ?r = "CheckStatus (onFailure u INVALID_GOAL)"
    obtain n' where t: "tick u i n = (?r, n')"
      and c: "calls n' = calls n0 @ [CallSetGoal, CallOnFailure INVALID_GOAL]"
      using b None s0 assms(2) by (simp add: tick_def send_goal_def record_call_def)
    from c cs0 have nc: "new_calls n n' = cs0 @ [CallSetGoal, CallOnFailure INVALID_GOAL]"
      by (simp add: new_calls_def)
    have nr: "?r \<noteq> Inr RUNNING" by (rule CheckStatus_not_RUNNING)
    have "\<exists>e. activation u (Poll i # hs) n = (e, n') \<and> e \<noteq> InFlight
            \<or> activation u (Poll i # hs) n = (e, resetStatus n') \<and> e \<noteq> InFlight"
      using t nr by (cases ?r) auto
    then have "filter send_call (new_calls n (snd (activation u (Poll i # hs) n))) = []
             \<and> fst (activation u (Poll i # hs) n) \<noteq> InFlight"
      using nc cs0(2) by (auto simp: new_calls_def resetStatus_def)
    moreover have "fst (tick u i n)
              = (if onFailure u INVALID_GOAL = SUCCESS \<or> onFailure u INVALID_GOAL = FAILURE
                 then Inr (onFailure u INVALID_GOAL) else Inl check_error)"
      by (simp add: t CheckStatus_def check_error_def)
    moreover have "CallOnFailure INVALID_GOAL \<in> set (new_calls n (snd (tick u i n)))"
      by (simp add: t nc)
    ultimately show ?thesis by blast
  qed
qed

text \<open>
  Three users that decline, on the fresh node: the poll returns the \<open>FAILURE\<close> of the
  first and the \<open>SUCCESS\<close> of the second and throws for the \<open>RUNNING\<close> of the third.  For
  the first, the activation is complete with \<open>FAILURE\<close> and its calls are the binding,
  \<open>setGoal\<close> and \<open>onFailure\<close>.
\<close>

theorem invalid_goal_witness:
  "fst (tick declining_user quiet fresh_node) = Inr FAILURE
   \<and> fst (tick lenient_user quiet fresh_node) = Inr SUCCESS
   \<and> fst (tick careless_user quiet fresh_node) = Inl check_error
   \<and> new_calls fresh_node (snd (activation declining_user [Poll quiet, Poll quiet] fresh_node))
       = [CreateClient ''fibonacci'', WaitForActionServer 1000 True,
          CallSetGoal, CallOnFailure INVALID_GOAL]
   \<and> fst (activation declining_user [Poll quiet, Poll quiet] fresh_node) = Completed FAILURE"
proof -
  have h: "status fresh_node = IDLE" "setGoal declining_user = None"
    "setGoal lenient_user = None" "setGoal careless_user = None"
    by (simp_all add: fresh_node_def declining_user_def lenient_user_def careless_user_def)
  have b: "fst (bind_client quiet fresh_node) = None"
    by (simp add: bind_client_def createClient_def quiet_def fresh_node_def Let_def)
  have v: "onFailure declining_user INVALID_GOAL = FAILURE"
    "onFailure lenient_user INVALID_GOAL = SUCCESS"
    "onFailure careless_user INVALID_GOAL = RUNNING"
    by (simp_all add: declining_user_def lenient_user_def careless_user_def demo_user_def
          default_onFailure_def)
  from invalid_goal [OF h(1,2), of quiet "[Poll quiet]"] b v(1)
  have 1: "fst (tick declining_user quiet fresh_node) = Inr FAILURE" by simp
  from invalid_goal [OF h(1,3), of quiet "[Poll quiet]"] b v(2)
  have 2: "fst (tick lenient_user quiet fresh_node) = Inr SUCCESS" by simp
  from invalid_goal [OF h(1,4), of quiet "[Poll quiet]"] b v(3)
  have 3: "fst (tick careless_user quiet fresh_node) = Inl check_error" by simp
  have a: "activation declining_user [Poll quiet, Poll quiet] fresh_node
             = (Completed FAILURE,
                resetStatus (snd (tick declining_user quiet fresh_node)))"
    using 1 by (cases "tick declining_user quiet fresh_node") simp
  have c: "calls (snd (tick declining_user quiet fresh_node))
             = [CreateClient ''fibonacci'', WaitForActionServer 1000 True,
                CallSetGoal, CallOnFailure INVALID_GOAL]"
    by (simp add: model_defs declining_user_def demo_defs)
  have "tick lenient_user quiet fresh_node
          = (Inr SUCCESS, record_call (CallOnFailure INVALID_GOAL)
               (record_call CallSetGoal (sent_node\<lparr>future_goal_handle := False,
                  calls := [CreateClient ''fibonacci'', WaitForActionServer 1000 True]\<rparr>)))"
    "fst (tick careless_user quiet fresh_node) = Inl check_error"
    by (simp_all add: model_defs lenient_user_def careless_user_def declining_user_def demo_defs
          check_error_def)
  from a c have 4: "new_calls fresh_node
        (snd (activation declining_user [Poll quiet, Poll quiet] fresh_node))
       = [CreateClient ''fibonacci'', WaitForActionServer 1000 True,
          CallSetGoal, CallOnFailure INVALID_GOAL]"
    by (simp add: new_calls_def resetStatus_def fresh_node_def)
  from 1 2 3 4 a show ?thesis by simp
qed

lemma await_goal_response_ignores_binding_inputs:
  "await_goal_response u (i\<lparr>port_server_name := p, server_found := b\<rparr>) n
     = await_goal_response u i n"
  by (simp add: await_goal_response_def split: prod.splits option.splits)

lemma check_feedback_and_result_ignores_binding_inputs:
  "check_feedback_and_result u (i\<lparr>port_server_name := p, server_found := b\<rparr>) n
     = check_feedback_and_result u i n"
  by (simp add: check_feedback_and_result_def)

lemma poll_goal_ignores_binding_inputs:
  "poll_goal u (i\<lparr>port_server_name := p, server_found := b\<rparr>) n = poll_goal u i n"
  by (simp add: poll_goal_def await_goal_response_ignores_binding_inputs
        check_feedback_and_result_ignores_binding_inputs split: prod.splits option.splits)

lemma tick_not_idle:
  assumes "status n \<noteq> IDLE" and "action_client n \<noteq> None"
  shows "tick u i n = (if status n = RUNNING then poll_goal u i n else (Inr RUNNING, n))"
  using assms by (simp add: tick_def bind_client_skipped)

text \<open>
  C9.  The client is rebound only in \<open>IDLE\<close>.  In \<open>IDLE\<close>, with a server name that may
  change, a name read from the port that is not empty and differs from the previous one
  makes the tick create a client for it and wait for its server, before anything else.
  In any other status, with a client in place, the tick does not read the port: its
  result and the node after it are the same whatever the port holds and whatever the
  server would answer, the client and the previous name stay, and no client is created.
\<close>

theorem rebinding:
  shows "(status n = IDLE \<and> server_name_may_change n \<and> port_server_name i = Some name
            \<and> name \<noteq> [] \<and> name \<noteq> prev_server_name n \<longrightarrow>
            action_client (snd (tick u i n)) = Some name
          \<and> prev_server_name (snd (tick u i n)) = name
          \<and> take 2 (new_calls n (snd (tick u i n)))
               = [CreateClient name, WaitForActionServer (server_timeout n) (server_found i)])
       \<and> (status n \<noteq> IDLE \<and> action_client n \<noteq> None \<longrightarrow>
            tick u (i\<lparr>port_server_name := p, server_found := b\<rparr>) n = tick u i n
          \<and> action_client (snd (tick u i n)) = action_client n
          \<and> prev_server_name (snd (tick u i n)) = prev_server_name n
          \<and> filter create_call (new_calls n (snd (tick u i n))) = [])"
proof (intro conjI impI)
  assume a: "status n = IDLE \<and> server_name_may_change n \<and> port_server_name i = Some name
            \<and> name \<noteq> [] \<and> name \<noteq> prev_server_name n"
  let ?n0 = "n\<lparr>action_client := Some name, prev_server_name := name,
                calls := calls n @ [CreateClient name,
                                    WaitForActionServer (server_timeout n) (server_found i)]\<rparr>"
  from a have b: "bind_client i n = (None, ?n0)"
    by (auto simp: bind_client_def createClient_def)
  with a have t: "tick u i n = send_goal u i ?n0" by (simp add: tick_def)
  obtain r n' where s: "send_goal u i ?n0 = (r, n')" by (cases "send_goal u i ?n0")
  from send_goal_frame [OF s] t s
  show "action_client (snd (tick u i n)) = Some name"
    and "prev_server_name (snd (tick u i n)) = name"
    by simp_all
  from send_goal_calls [OF s] obtain cs where "calls n' = calls ?n0 @ cs" by blast
  with t s
  show "take 2 (new_calls n (snd (tick u i n)))
          = [CreateClient name, WaitForActionServer (server_timeout n) (server_found i)]"
    by (simp add: new_calls_def)
next
  assume a: "status n \<noteq> IDLE \<and> action_client n \<noteq> None"
  then have t: "tick u j n = (if status n = RUNNING then poll_goal u j n else (Inr RUNNING, n))"
    for j
    by (simp add: tick_not_idle)
  show "tick u (i\<lparr>port_server_name := p, server_found := b\<rparr>) n = tick u i n"
    by (simp add: t poll_goal_ignores_binding_inputs)
  obtain r n' where pg: "poll_goal u i n = (r, n')" by (cases "poll_goal u i n")
  from poll_goal_frame [OF pg] pg
  show "action_client (snd (tick u i n)) = action_client n"
    and "prev_server_name (snd (tick u i n)) = prev_server_name n"
    by (simp_all add: t)
  from poll_goal_calls [OF pg] obtain cs
    where "calls n' = calls n @ cs" "filter create_call cs = []" by blast
  with pg show "filter create_call (new_calls n (snd (tick u i n))) = []"
    by (simp add: t new_calls_def)
qed

text \<open>
  Back in \<open>IDLE\<close> the node of the examples is rebound from \<open>fibonacci\<close> to \<open>other\<close>;
  while its goal is active the same port value changes nothing.
\<close>

theorem rebinding_witness:
  "action_client (snd (tick demo_user (quiet\<lparr>port_server_name := Some ''other''\<rparr>) finished_node))
     = Some ''other''
   \<and> prev_server_name (snd (tick demo_user (quiet\<lparr>port_server_name := Some ''other''\<rparr>) finished_node))
     = ''other''
   \<and> take 2 (new_calls finished_node
        (snd (tick demo_user (quiet\<lparr>port_server_name := Some ''other''\<rparr>) finished_node)))
     = [CreateClient ''other'', WaitForActionServer 1000 True]
   \<and> tick demo_user (quiet\<lparr>port_server_name := Some ''other'', server_found := False\<rparr>) active_node
     = tick demo_user quiet active_node
   \<and> action_client (snd (tick demo_user quiet active_node)) = Some ''fibonacci''
   \<and> prev_server_name (snd (tick demo_user quiet active_node)) = ''fibonacci''
   \<and> filter create_call (new_calls active_node (snd (tick demo_user quiet active_node))) = []"
proof -
  have f: "status finished_node = IDLE" "server_name_may_change finished_node"
    "prev_server_name finished_node = ''fibonacci''" "server_timeout finished_node = 1000"
    by (simp_all add: finished_node_def model_defs demo_defs got_def)
  have a: "status active_node \<noteq> IDLE" "action_client active_node = Some ''fibonacci''"
    "prev_server_name active_node = ''fibonacci''"
    by (simp_all add: demo_defs)
  from rebinding [where n = finished_node and u = demo_user and name = "''other''"
                     and i = "quiet\<lparr>port_server_name := Some ''other''\<rparr>"]
    rebinding [where n = active_node and u = demo_user and i = quiet
                 and p = "Some ''other''" and b = False]
    f a
  show ?thesis by (simp add: quiet_def)
qed

lemma deliver_last_feedback:
  assumes "deliver u es n = (None, n1)"
  shows "on_feedback_state_change n1 =
           (case last_feedback es of
              None \<Rightarrow> on_feedback_state_change n
            | Some feedback \<Rightarrow> onFeeback u feedback)"
  using assms
proof (induction es arbitrary: n)
  case Nil
  then show ?case by simp
next
  case (Cons e es)
  obtain y m where r: "run_callback u e n = (y, m)" by (cases "run_callback u e n")
  with Cons.prems have y: "y = None" and d: "deliver u es m = (None, n1)"
    by (cases y; simp)+
  note ih = Cons.IH [OF d]
  show ?case
  proof (cases e)
    case (FeedbackMsg feedback)
    with r y have "on_feedback_state_change m = onFeeback u feedback"
      by (auto simp: feedback_callback_def record_call_def Let_def split: if_splits)
    with ih FeedbackMsg show ?thesis by (simp split: option.splits)
  next
    case (ResultMsg res)
    with r have "on_feedback_state_change m = on_feedback_state_change n"
      by (auto simp: result_callback_def record_call_def)
    with ih ResultMsg show ?thesis by (simp split: option.splits)
  qed
qed

text \<open>
  What the check of line 370 does: the goal is active and no feedback callback of the
  interval throws.  If the feedback callback that ran last returned a status other than
  \<open>RUNNING\<close>, the poll passes \<open>goal_handle_\<close> to \<open>async_cancel_goal\<close> and calls neither
  \<open>onFailure\<close> nor \<open>onResultReceived\<close>, whatever result has arrived.  It returns the
  feedback state as stored when \<open>cancelGoal\<close> is back; when no callback runs during that
  wait, that is the status the last feedback callback returned.
\<close>

lemma stop_request_at_check:
  assumes "status n = RUNNING" and "action_client n = Some client" and "goal_received n"
    and "deliver u (spun i) n = (None, n1)"
    and "last_feedback (spun i) = Some feedback"
    and "onFeeback u feedback \<noteq> RUNNING"
  shows "AsyncCancelGoal client (goal_handle n) \<in> set (new_calls n (snd (tick u i n)))
       \<and> filter outcome_call (new_calls n (snd (tick u i n))) = []
       \<and> (fst (tick u i n) = Inr (on_feedback_state_change (snd (tick u i n)))
            \<or> fst (tick u i n) = Inl idle_error)
       \<and> (spun_cancel i = [] \<longrightarrow> fst (tick u i n) = Inr (onFeeback u feedback))"
proof -
  from deliver_frame [OF assms(4)] assms(2,3)
  have f1: "goal_received n1" "action_client n1 = Some client" "goal_handle n1 = goal_handle n"
    by simp_all
  from deliver_last_feedback [OF assms(4)] assms(5)
  have s1: "on_feedback_state_change n1 = onFeeback u feedback" by simp
  from deliver_spin [OF assms(4)] obtain cs1
    where cs1: "calls n1 = calls n @ cs1" "\<forall>c \<in> set cs1. bridge_call c" by blast
  obtain x n3 where c: "cancelGoal u (spun_cancel i) n1 = (x, n3)"
    by (cases "cancelGoal u (spun_cancel i) n1")
  from cancelGoal_calls [OF c f1(2)] f1(3) obtain cs3
    where cs3: "calls n3 = calls n1 @ AsyncCancelGoal client (goal_handle n) # cs3"
      "\<forall>c \<in> set cs3. bridge_call c" "x \<noteq> None \<longrightarrow> x = Some idle_error"
    by auto
  have "tick u i n = poll_goal u i n" using assms(1,2) by (simp add: tick_running)
  also have "\<dots> = check_feedback_and_result u i n1"
    using assms(4) f1(1) by (simp add: poll_goal_def)
  also have "\<dots> = (case x of Some y \<Rightarrow> Inl y | None \<Rightarrow> Inr (on_feedback_state_change n3), n3)"
    using s1 assms(6) c by (simp add: check_feedback_and_result_def split: option.splits)
  finally have t: "tick u i n
      = (case x of Some y \<Rightarrow> Inl y | None \<Rightarrow> Inr (on_feedback_state_change n3), n3)" .
  have nc: "new_calls n n3 = cs1 @ AsyncCancelGoal client (goal_handle n) # cs3"
    using cs1(1) cs3(1) by (simp add: new_calls_def)
  have 1: "AsyncCancelGoal client (goal_handle n) \<in> set (new_calls n (snd (tick u i n)))"
    by (simp add: t nc)
  have 2: "filter outcome_call (new_calls n (snd (tick u i n))) = []"
    using bridge_calls_filter(1) [OF cs1(2)] bridge_calls_filter(1) [OF cs3(2)]
    by (simp add: t nc)
  have 3: "fst (tick u i n) = Inr (on_feedback_state_change (snd (tick u i n)))
            \<or> fst (tick u i n) = Inl idle_error"
    using cs3(3) by (cases x) (simp_all add: t)
  have 4: "fst (tick u i n) = Inr (onFeeback u feedback)" if "spun_cancel i = []"
  proof -
    from that c f1(2) have "x = None" "on_feedback_state_change n3 = on_feedback_state_change n1"
      by (auto simp: cancelGoal_def record_call_def)
    with s1 show ?thesis by (simp add: t)
  qed
  from 1 2 3 4 show ?thesis by blast
qed

text \<open>
  Feedback that asks to stop and the result arrive together: the poll cancels goal 7 and
  returns \<open>FAILURE\<close>, and \<open>onResultReceived\<close> is not called.
\<close>

lemma stop_request_at_check_example:
  "tick demo_user aborting active_node
     = (Inr FAILURE,
        active_node\<lparr>on_feedback_state_change := FAILURE, result := got SUCCEEDED,
          calls := calls active_node @
            [CallOnFeeback 0, EmitWakeUpSignal, EmitWakeUpSignal,
             AsyncCancelGoal ''fibonacci'' (Some 7)]\<rparr>)"
proof -
  let ?n1 = "active_node\<lparr>on_feedback_state_change := FAILURE, result := got SUCCEEDED,
          calls := calls active_node @ [CallOnFeeback 0, EmitWakeUpSignal, EmitWakeUpSignal]\<rparr>"
  have h: "status active_node = RUNNING" "action_client active_node = Some ''fibonacci''"
    "goal_received active_node"
    by (simp_all add: demo_defs)
  have d: "deliver demo_user (spun aborting) active_node = (None, ?n1)"
    by (simp add: aborting_def quiet_def demo_user_def feedback_callback_def
          result_callback_def record_call_def)
  have l: "last_feedback (spun aborting) = Some 0" "onFeeback demo_user 0 \<noteq> RUNNING"
    by (simp_all add: aborting_def quiet_def demo_user_def)
  have t: "snd (tick demo_user aborting active_node)
     = active_node\<lparr>on_feedback_state_change := FAILURE, result := got SUCCEEDED,
          calls := calls active_node @
            [CallOnFeeback 0, EmitWakeUpSignal, EmitWakeUpSignal,
             AsyncCancelGoal ''fibonacci'' (Some 7)]\<rparr>"
    by (simp add: model_defs demo_defs aborting_def got_def)
  have "spun_cancel aborting = []" "onFeeback demo_user 0 = FAILURE"
    by (simp_all add: aborting_def quiet_def demo_user_def)
  with stop_request_at_check [OF h d l] have "fst (tick demo_user aborting active_node) = Inr FAILURE"
    by simp
  with t show ?thesis by (simp add: prod_eq_iff)
qed

text \<open>
  C3.  A request to stop is lost when another feedback callback runs before the tick
  reads the one slot that holds it.  The goal of the examples is active and the feedback
  callback returns \<open>FAILURE\<close> for feedback 0 and \<open>RUNNING\<close> for feedback 1.  When both
  arrive in one interval together with the result, the poll issues no cancellation,
  dispatches the result and returns \<open>SUCCESS\<close>.  When feedback 0 arrives alone and
  feedback 1 while \<open>cancelGoal\<close> waits, the poll requests the cancellation and returns
  \<open>RUNNING\<close>.
\<close>

theorem stop_request_overwritten:
  "onFeeback demo_user 0 = FAILURE \<and> onFeeback demo_user 1 = RUNNING
   \<and> status active_node = RUNNING \<and> goal_received active_node
   \<and> spun overwritten = [FeedbackMsg 0, FeedbackMsg 1, ResultMsg (got SUCCEEDED)]
   \<and> fst (tick demo_user overwritten active_node) = Inr SUCCESS
   \<and> new_calls active_node (snd (tick demo_user overwritten active_node))
       = [CallOnFeeback 0, EmitWakeUpSignal, CallOnFeeback 1, EmitWakeUpSignal,
          EmitWakeUpSignal, CallOnResultReceived (got SUCCEEDED)]
   \<and> spun late_feedback = [FeedbackMsg 0] \<and> spun_cancel late_feedback = [FeedbackMsg 1]
   \<and> fst (tick demo_user late_feedback active_node) = Inr RUNNING
   \<and> new_calls active_node (snd (tick demo_user late_feedback active_node))
       = [CallOnFeeback 0, EmitWakeUpSignal, AsyncCancelGoal ''fibonacci'' (Some 7),
          CallOnFeeback 1, EmitWakeUpSignal]"
  by (simp add: model_defs demo_defs overwritten_def late_feedback_def got_def)

text \<open>
  What a tick does check.  Whenever it calls \<open>onFailure\<close> or \<open>onResultReceived\<close>, it
  returns the callback's value if that is \<open>SUCCESS\<close> or \<open>FAILURE\<close> and throws the
  \<open>std::logic_error\<close> of line 270 otherwise.  Whenever a feedback callback run during a tick
  returns \<open>IDLE\<close>, the tick throws the \<open>std::logic_error\<close> of line 302.
\<close>

lemma outcome_values_checked:
  "(\<forall>e. CallOnFailure e \<in> set (new_calls n (snd (tick u i n))) \<longrightarrow>
        fst (tick u i n) = (if onFailure u e = SUCCESS \<or> onFailure u e = FAILURE
                            then Inr (onFailure u e) else Inl check_error))
   \<and> (\<forall>w. CallOnResultReceived w \<in> set (new_calls n (snd (tick u i n))) \<longrightarrow>
        fst (tick u i n) = (if onResultReceived u w = SUCCESS \<or> onResultReceived u w = FAILURE
                            then Inr (onResultReceived u w) else Inl check_error))
   \<and> (\<forall>f. CallOnFeeback f \<in> set (new_calls n (snd (tick u i n))) \<and> onFeeback u f = IDLE \<longrightarrow>
        fst (tick u i n) = Inl idle_error)"
proof -
  obtain r n' where t: "tick u i n = (r, n')" by (cases "tick u i n")
  from tick_calls [OF t] obtain cs where cs: "calls n' = calls n @ cs" "accounted u r cs"
    by blast
  from cs(1) have "new_calls n n' = cs" by (rule new_calls_append)
  with cs(2) t show ?thesis by (simp add: accounted_def CheckStatus_cases)
qed

text \<open>
  \<open>onResultReceived\<close> returning \<open>RUNNING\<close> and \<open>onFailure\<close> returning \<open>SKIPPED\<close> throw,
  \<open>onResultReceived\<close> returning \<open>SUCCESS\<close> is returned, and feedback returning \<open>IDLE\<close>
  throws.
\<close>

lemma outcome_values_checked_example:
  "fst (tick sloppy_user (quiet\<lparr>spun := [ResultMsg (got SUCCEEDED)]\<rparr>) active_node)
     = Inl check_error
   \<and> fst (tick sloppy_user (quiet\<lparr>spun := [ResultMsg (got ABORTED)]\<rparr>) active_node)
     = Inl check_error
   \<and> fst (tick demo_user (quiet\<lparr>spun := [ResultMsg (got SUCCEEDED)]\<rparr>) active_node)
     = Inr SUCCESS
   \<and> fst (tick demo_user (quiet\<lparr>spun := [FeedbackMsg 3]\<rparr>) active_node) = Inl idle_error"
proof -
  have 1: "CallOnResultReceived (got SUCCEEDED)
        \<in> set (new_calls active_node
              (snd (tick sloppy_user (quiet\<lparr>spun := [ResultMsg (got SUCCEEDED)]\<rparr>) active_node)))"
    by (simp add: model_defs demo_defs sloppy_user_def got_def)
  have 2: "CallOnFailure ACTION_ABORTED
        \<in> set (new_calls active_node
              (snd (tick sloppy_user (quiet\<lparr>spun := [ResultMsg (got ABORTED)]\<rparr>) active_node)))"
    by (simp add: model_defs demo_defs sloppy_user_def got_def)
  have 3: "CallOnResultReceived (got SUCCEEDED)
        \<in> set (new_calls active_node
              (snd (tick demo_user (quiet\<lparr>spun := [ResultMsg (got SUCCEEDED)]\<rparr>) active_node)))"
    by (simp add: model_defs demo_defs got_def)
  have 4: "CallOnFeeback 3
        \<in> set (new_calls active_node
              (snd (tick demo_user (quiet\<lparr>spun := [FeedbackMsg 3]\<rparr>) active_node)))"
    by (simp add: model_defs demo_defs)
  have v: "onResultReceived sloppy_user (got SUCCEEDED) = RUNNING"
    "onFailure sloppy_user ACTION_ABORTED = SKIPPED"
    "onResultReceived demo_user (got SUCCEEDED) = SUCCESS"
    "onFeeback demo_user 3 = IDLE"
    by (simp_all add: sloppy_user_def demo_user_def)
  from outcome_values_checked [of active_node sloppy_user
         "quiet\<lparr>spun := [ResultMsg (got SUCCEEDED)]\<rparr>"] 1 v(1)
  have a: "fst (tick sloppy_user (quiet\<lparr>spun := [ResultMsg (got SUCCEEDED)]\<rparr>) active_node)
     = Inl check_error"
    by auto
  from outcome_values_checked [of active_node sloppy_user
         "quiet\<lparr>spun := [ResultMsg (got ABORTED)]\<rparr>"] 2 v(2)
  have b: "fst (tick sloppy_user (quiet\<lparr>spun := [ResultMsg (got ABORTED)]\<rparr>) active_node)
     = Inl check_error"
    by auto
  from outcome_values_checked [of active_node demo_user
         "quiet\<lparr>spun := [ResultMsg (got SUCCEEDED)]\<rparr>"] 3 v(3)
  have c: "fst (tick demo_user (quiet\<lparr>spun := [ResultMsg (got SUCCEEDED)]\<rparr>) active_node)
     = Inr SUCCESS"
    by auto
  from outcome_values_checked [of active_node demo_user "quiet\<lparr>spun := [FeedbackMsg 3]\<rparr>"]
    4 v(4)
  have d: "fst (tick demo_user (quiet\<lparr>spun := [FeedbackMsg 3]\<rparr>) active_node) = Inl idle_error"
    by auto
  from a b c d show ?thesis by blast
qed

text \<open>
  C7.  The value of the feedback callback is checked against \<open>IDLE\<close> only.  While the
  goal of the examples is active the feedback callback returns \<open>SKIPPED\<close>: the poll
  cancels the goal and returns \<open>SKIPPED\<close>, and nothing is thrown.
\<close>

theorem skipped_feedback_returned:
  "onFeeback demo_user 2 = SKIPPED
   \<and> status active_node = RUNNING \<and> goal_received active_node
   \<and> tick demo_user (quiet\<lparr>spun := [FeedbackMsg 2]\<rparr>) active_node
       = (Inr SKIPPED,
          active_node\<lparr>on_feedback_state_change := SKIPPED,
            calls := calls active_node @
              [CallOnFeeback 2, EmitWakeUpSignal, AsyncCancelGoal ''fibonacci'' (Some 7)]\<rparr>)"
  by (simp add: model_defs demo_defs)

lemma halt_calls:
  assumes "halt u evs n = (x, n')"
  shows "\<exists>cs. calls n' = calls n @ cs \<and> filter outcome_call cs = []"
proof (cases "status n = RUNNING \<and> action_client n \<noteq> None")
  case True
  then obtain client where cl: "action_client n = Some client" by auto
  from True assms have "cancelGoal u evs n = (x, n')" by (simp add: halt_def)
  from cancelGoal_calls [OF this cl] obtain cs
    where cs: "calls n' = calls n @ AsyncCancelGoal client (goal_handle n) # cs"
      "\<forall>c \<in> set cs. bridge_call c"
    by blast
  from cs bridge_calls_filter(1) [OF cs(2)]
  have "calls n' = calls n @ (AsyncCancelGoal client (goal_handle n) # cs)
      \<and> filter outcome_call (AsyncCancelGoal client (goal_handle n) # cs) = []"
    by simp
  then show ?thesis by blast
next
  case False
  with assms have "n' = n" by (auto simp: halt_def cancelGoal_def split: if_splits)
  then have "calls n' = calls n @ [] \<and> filter outcome_call [] = []" by simp
  then show ?thesis by blast
qed

lemma activation_calls:
  assumes "activation u hs n = (e, n')"
  shows "\<exists>cs. calls n' = calls n @ cs
           \<and> length (filter outcome_call cs) \<le> 1
           \<and> ((e = Completed SUCCESS \<or> e = Completed FAILURE) \<and> filter cancel_call cs = []
                 \<longrightarrow> length (filter outcome_call cs) = 1)"
  using assms
proof (induction hs arbitrary: n)
  case Nil
  then have "calls n' = calls n @ [] \<and> length (filter outcome_call []) \<le> 1
           \<and> ((e = Completed SUCCESS \<or> e = Completed FAILURE) \<and> filter cancel_call [] = []
                 \<longrightarrow> length (filter outcome_call []) = 1)"
    by auto
  then show ?case by blast
next
  case (Cons h hs)
  show ?case
  proof (cases h)
    case (HaltNode evs)
    obtain x m where hl: "halt u evs n = (x, m)" by (cases "halt u evs n")
    from halt_calls [OF hl] obtain cs
      where cs: "calls m = calls n @ cs" "filter outcome_call cs = []" by blast
    from Cons.prems HaltNode hl have "calls n' = calls m" "e = Halted \<or> (\<exists>y. e = Thrown y)"
      by (auto simp: resetStatus_def split: option.splits)
    with cs have "calls n' = calls n @ cs \<and> length (filter outcome_call cs) \<le> 1
           \<and> ((e = Completed SUCCESS \<or> e = Completed FAILURE) \<and> filter cancel_call cs = []
                 \<longrightarrow> length (filter outcome_call cs) = 1)"
      by auto
    then show ?thesis by blast
  next
    case (Poll i)
    obtain r m where t: "tick u i n = (r, m)" by (cases "tick u i n")
    from tick_calls [OF t] obtain cs1
      where cs1: "calls m = calls n @ cs1" "accounted u r cs1" by blast
    show ?thesis
    proof (cases "r = Inr RUNNING")
      case True
      with Cons.prems Poll t have "activation u hs m = (e, n')" by simp
      from Cons.IH [OF this] obtain cs2
        where cs2: "calls n' = calls m @ cs2" "length (filter outcome_call cs2) \<le> 1"
          "(e = Completed SUCCESS \<or> e = Completed FAILURE) \<and> filter cancel_call cs2 = []
                 \<longrightarrow> length (filter outcome_call cs2) = 1"
        by blast
      from True cs1(2) have q: "filter outcome_call cs1 = []" by (simp add: accounted_def)
      from cs1(1) cs2 q
      have "calls n' = calls n @ (cs1 @ cs2)
           \<and> length (filter outcome_call (cs1 @ cs2)) \<le> 1
           \<and> ((e = Completed SUCCESS \<or> e = Completed FAILURE)
                 \<and> filter cancel_call (cs1 @ cs2) = []
                 \<longrightarrow> length (filter outcome_call (cs1 @ cs2)) = 1)"
        by simp
      then show ?thesis by blast
    next
      case False
      with Cons.prems Poll t
      have e: "calls n' = calls m"
        "(\<exists>y. r = Inl y \<and> e = Thrown y) \<or> (\<exists>s. r = Inr s \<and> e = Completed s)"
        by (auto simp: resetStatus_def split: sum.splits if_splits)
      from cs1(2) have "length (filter outcome_call cs1) \<le> 1"
        "(r = Inr SUCCESS \<or> r = Inr FAILURE) \<and> filter cancel_call cs1 = []
            \<longrightarrow> length (filter outcome_call cs1) = 1"
        by (simp_all add: accounted_def)
      with e cs1(1)
      have "calls n' = calls n @ cs1 \<and> length (filter outcome_call cs1) \<le> 1
           \<and> ((e = Completed SUCCESS \<or> e = Completed FAILURE) \<and> filter cancel_call cs1 = []
                 \<longrightarrow> length (filter outcome_call cs1) = 1)"
        by auto
      then show ?thesis by blast
    qed
  qed
qed

text \<open>
  C2, as stated, fails: the goal is sent and accepted, then a feedback callback returns
  \<open>FAILURE\<close>.  The poll returns \<open>FAILURE\<close>, the node is back in \<open>IDLE\<close>, and neither
  \<open>onResultReceived\<close> nor \<open>onFailure\<close> has been called.
\<close>

theorem one_outcome_callback_counterexample:
  "status fresh_node = IDLE
   \<and> fst (activation demo_user abort_run fresh_node) = Completed FAILURE
   \<and> status (snd (activation demo_user abort_run fresh_node)) = IDLE
   \<and> filter outcome_call (new_calls fresh_node (snd (activation demo_user abort_run fresh_node)))
       = []"
  by (simp add: abort_run_def accepting_def tick_fresh tick_sent [simplified]
        model_defs demo_defs)

text \<open>
  C2, amended.  In every activation, however the host polls and halts, \<open>onResultReceived\<close>
  and \<open>onFailure\<close> are called at most once between them.  When the activation completes
  with \<open>SUCCESS\<close> or \<open>FAILURE\<close> and no cancellation was requested during it, exactly one
  of them was called.
\<close>

theorem one_outcome_callback:
  "length (filter outcome_call (new_calls n (snd (activation u hs n)))) \<le> 1
   \<and> ((fst (activation u hs n) = Completed SUCCESS \<or> fst (activation u hs n) = Completed FAILURE)
        \<and> filter cancel_call (new_calls n (snd (activation u hs n))) = []
        \<longrightarrow> length (filter outcome_call (new_calls n (snd (activation u hs n)))) = 1)"
proof -
  obtain e n' where a: "activation u hs n = (e, n')" by (cases "activation u hs n")
  from activation_calls [OF a] obtain cs
    where cs: "calls n' = calls n @ cs" "length (filter outcome_call cs) \<le> 1"
      "(e = Completed SUCCESS \<or> e = Completed FAILURE) \<and> filter cancel_call cs = []
         \<longrightarrow> length (filter outcome_call cs) = 1"
    by blast
  from cs(1) have "new_calls n n' = cs" by (rule new_calls_append)
  with cs(2,3) a show ?thesis by simp
qed

text \<open>
  The activation that ends with the result: it completes with \<open>SUCCESS\<close>, the node is back
  in \<open>IDLE\<close>, nothing was cancelled and one of the two callbacks was called.
\<close>

theorem one_outcome_callback_witness:
  "fst (activation demo_user success_run fresh_node) = Completed SUCCESS
   \<and> status (snd (activation demo_user success_run fresh_node)) = IDLE
   \<and> filter cancel_call (new_calls fresh_node (snd (activation demo_user success_run fresh_node)))
       = []
   \<and> length (filter outcome_call
        (new_calls fresh_node (snd (activation demo_user success_run fresh_node)))) = 1"
proof -
  have r: "activation demo_user success_run fresh_node
     = (Completed SUCCESS,
        resetStatus (snd (tick demo_user (quiet\<lparr>spun := [ResultMsg (got SUCCEEDED)]\<rparr>) active_node)))"
    by (simp add: success_run_def accepting_def tick_fresh tick_sent [simplified]
          model_defs demo_defs got_def)
  have c: "filter cancel_call (new_calls fresh_node (snd (activation demo_user success_run fresh_node)))
       = []"
    unfolding r by (simp add: model_defs demo_defs got_def)
  have s: "status (snd (activation demo_user success_run fresh_node)) = IDLE"
    unfolding r by (simp add: resetStatus_def)
  from one_outcome_callback [of fresh_node demo_user success_run] r c s show ?thesis by simp
qed

lemma success_run_finished:
  "activation demo_user success_run fresh_node = (Completed SUCCESS, finished_node)"
  by (simp add: success_run_def accepting_def tick_fresh tick_sent [simplified] finished_node_def
        model_defs demo_defs got_def)

lemma poll_goal_keeps_received:
  assumes "poll_goal u i n = (r, n')" and "goal_received n"
  shows "goal_received n'"
proof -
  obtain x n1 where d: "deliver u (spun i) n = (x, n1)" by (cases "deliver u (spun i) n")
  from deliver_frame [OF d] assms(2) have g: "goal_received n1" by simp
  show ?thesis
  proof (cases x)
    case (Some y)
    with d assms(1) have "n' = n1" by (simp add: poll_goal_def)
    with g show ?thesis by simp
  next
    case None
    with d g assms(1) have "check_feedback_and_result u i n1 = (r, n')"
      by (simp add: poll_goal_def)
    from check_feedback_and_result_frame [OF this] g show ?thesis by simp
  qed
qed

lemma first_tick:
  assumes "status n = IDLE" and "tick u i n = (Inr RUNNING, n')"
  shows "status n' = RUNNING \<and> action_client n' \<noteq> None \<and> goal_handle n' = goal_handle n"
proof -
  obtain x n0 where b: "bind_client i n = (x, n0)" by (cases "bind_client i n")
  from bind_client_calls [OF b] assms(1)
  have f0: "status n0 = IDLE" "goal_handle n0 = goal_handle n" by simp_all
  from b assms(2) have "x = None" by (cases x) (simp_all add: tick_def)
  with b f0(1) assms(2) have "send_goal u i n0 = (Inr RUNNING, n')" by (simp add: tick_def)
  from send_goal_frame [OF this]
  have "status n' = RUNNING" "action_client n' \<noteq> None" "goal_handle n' = goal_handle n0"
    by blast+
  with f0(2) show ?thesis by simp
qed

lemma in_flight_polls:
  assumes "activation u (map Poll ps) n = (InFlight, n1)"
    and "status n = RUNNING" and "action_client n \<noteq> None" and "\<not> goal_received n1"
  shows "status n1 = RUNNING \<and> action_client n1 = action_client n
       \<and> goal_handle n1 = goal_handle n \<and> \<not> goal_received n"
  using assms
proof (induction ps arbitrary: n)
  case Nil
  then show ?case by simp
next
  case (Cons i ps)
  obtain r m where t: "tick u i n = (r, m)" by (cases "tick u i n")
  with Cons.prems(1) have r: "r = Inr RUNNING" and a: "activation u (map Poll ps) m = (InFlight, n1)"
    by (auto split: sum.splits if_splits)
  from t Cons.prems(2,3) have p: "poll_goal u i n = (r, m)" by (simp add: tick_running)
  note f = poll_goal_frame [OF p]
  from f Cons.prems(2,3) have "status m = RUNNING" "action_client m \<noteq> None" by simp_all
  from Cons.IH [OF a this Cons.prems(4)]
  have ih: "status n1 = RUNNING" "action_client n1 = action_client m"
    "goal_handle n1 = goal_handle m" "\<not> goal_received m"
    by simp_all
  from poll_goal_keeps_received [OF p] ih(4) have "\<not> goal_received n" by blast
  with f ih show ?case by simp
qed

text \<open>
  C10, as stated, fails: the handle that \<open>halt\<close> passes on before the goal response has
  been seen is not null in general.  The first activation of the examples ends with the
  result of goal 7; the second sends its goal and is halted at once, and \<open>cancelGoal\<close>
  passes handle 7, the handle of the goal that is over.
\<close>

theorem halt_handle_counterexample:
  "activation demo_user success_run fresh_node = (Completed SUCCESS, finished_node)
   \<and> tick demo_user quiet finished_node = (Inr RUNNING, resent_node)
   \<and> status resent_node = RUNNING \<and> \<not> goal_received resent_node
   \<and> new_calls resent_node (snd (halt demo_user [] resent_node))
       = [AsyncCancelGoal ''fibonacci'' (Some 7)]"
proof -
  have t: "tick demo_user quiet finished_node = (Inr RUNNING, resent_node)"
    by (simp add: resent_node_def finished_node_def model_defs demo_defs got_def)
  have s: "status resent_node = RUNNING \<and> \<not> goal_received resent_node"
    by (simp add: resent_node_def finished_node_def model_defs demo_defs got_def)
  have c: "new_calls resent_node (snd (halt demo_user [] resent_node))
       = [AsyncCancelGoal ''fibonacci'' (Some 7)]"
    by (simp add: resent_node_def finished_node_def model_defs demo_defs got_def)
  from success_run_finished t s c show ?thesis by blast
qed

text \<open>
  C10, amended.  An activation starts in \<open>IDLE\<close>; the host polls, every poll returns
  \<open>RUNNING\<close>, and no poll has seen the goal response (\<open>goal_received_\<close> is false).  Then
  the node is \<open>RUNNING\<close> and \<open>goal_handle_\<close> is what it was when the activation began:
  the first tick does not clear it.  \<open>halt\<close> passes exactly that to
  \<open>async_cancel_goal\<close>, null or not, as the first call it makes.
\<close>

theorem halt_passes_stored_handle:
  assumes "status n = IDLE" and "ps \<noteq> []"
    and "activation u (map Poll ps) n = (InFlight, n1)"
    and "\<not> goal_received n1"
  shows "status n1 = RUNNING \<and> goal_handle n1 = goal_handle n
       \<and> (\<exists>client cs. action_client n1 = Some client
             \<and> new_calls n1 (snd (halt u evs n1)) = AsyncCancelGoal client (goal_handle n) # cs)"
proof -
  from assms(2) obtain i js where ps: "ps = i # js" by (cases ps) auto
  obtain r m where t: "tick u i n = (r, m)" by (cases "tick u i n")
  with assms(3) ps have r: "r = Inr RUNNING" and a: "activation u (map Poll js) m = (InFlight, n1)"
    by (auto split: sum.splits if_splits)
  from first_tick [OF assms(1) t [unfolded r]]
  have m: "status m = RUNNING" "action_client m \<noteq> None" "goal_handle m = goal_handle n"
    by simp_all
  from in_flight_polls [OF a m(1,2) assms(4)] m(3)
  have n1: "status n1 = RUNNING" "action_client n1 = action_client m"
    "goal_handle n1 = goal_handle n"
    by simp_all
  from n1(2) m(2) obtain client where cl: "action_client n1 = Some client" by auto
  obtain x n' where h: "halt u evs n1 = (x, n')" by (cases "halt u evs n1")
  with n1(1) have "cancelGoal u evs n1 = (x, n')" by (simp add: halt_def)
  from cancelGoal_calls [OF this cl] n1(3) obtain cs
    where "calls n' = calls n1 @ AsyncCancelGoal client (goal_handle n) # cs" by auto
  then have "new_calls n1 n' = AsyncCancelGoal client (goal_handle n) # cs"
    by (rule new_calls_append)
  with h cl n1 show ?thesis by simp
qed

text \<open>
  The first activation of the node of the examples, halted after its first poll: the
  handle passed is null.
\<close>

theorem halt_passes_stored_handle_witness:
  "status sent_node = RUNNING \<and> \<not> goal_received sent_node
   \<and> goal_handle sent_node = None
   \<and> new_calls sent_node (snd (halt demo_user [] sent_node))
       = [AsyncCancelGoal ''fibonacci'' None]"
proof -
  have h: "status fresh_node = IDLE" "[quiet] \<noteq> []"
    "activation demo_user (map Poll [quiet]) fresh_node = (InFlight, sent_node)"
    "\<not> goal_received sent_node"
    by (simp_all add: tick_fresh) (simp_all add: demo_defs)
  have c: "new_calls sent_node (snd (halt demo_user [] sent_node))
       = [AsyncCancelGoal ''fibonacci'' None]"
    by (simp add: model_defs demo_defs)
  have "goal_handle fresh_node = None" by (simp add: fresh_node_def)
  with halt_passes_stored_handle [OF h, of "[]"] h(4) c show ?thesis by simp
qed

text \<open>
  C1.  The node of the examples is constructed with a blackboard pointer for the server
  name, so the client is made at the first tick.  The server does not answer within the
  timeout: \<open>createClient\<close> returns false, the tick drops that, sends the goal and returns
  \<open>RUNNING\<close>.  \<open>onFailure\<close> is not called.
\<close>

theorem unreachable_server_goal_sent:
  "construct demo_ctor = Inr fresh_node
   \<and> tick demo_user (quiet\<lparr>server_found := False\<rparr>) fresh_node
       = (Inr RUNNING,
          sent_node\<lparr>calls := [CreateClient ''fibonacci'', WaitForActionServer 1000 False,
                                CallSetGoal, AsyncSendGoal ''fibonacci'' 10]\<rparr>)"
  by (simp add: construct_demo model_defs demo_defs)

end
